theory Spec2Isabelle
  imports Complex_Main
begin

section \<open>Python floats\<close>

text \<open>
  The service computes with Python \<^verbatim>\<open>float\<close> values, that is IEEE 754 binary64
  numbers under round-to-nearest, ties-to-even. A float is NaN, an infinity, the negative
  zero, or a finite value held as the rational number it denotes (\<open>Fin 0\<close> is the positive
  zero). Every finite binary64 value is an integer multiple of \<open>2 ^ -1074\<close>; rounding
  therefore works on the magnitude scaled by \<open>2 ^ 1074\<close>, where the grid of representable
  numbers with ulp exponent \<open>k\<close> is the set of multiples of \<open>2 ^ k\<close> below \<open>2 ^ (k + 53)\<close>.
\<close>

datatype pyfloat = NaN | PInf | NInf | NegZero | Fin rat

definition round_half_even :: "rat \<Rightarrow> int" where
  "round_half_even x =
     (let f = \<lfloor>x\<rfloor>; d = x - of_int f
      in if d < 1 / 2 then f
         else if 1 / 2 < d then f + 1
         else if even f then f else f + 1)"

text \<open>
  \<open>expo_search fuel k s\<close> is the least ulp exponent \<open>k' \<ge> k\<close> with \<open>s < 2 ^ (k' + 53)\<close>,
  capped after \<open>fuel\<close> steps; binary64 has the ulp exponents \<open>0 .. 2045\<close> on the scaled grid.
\<close>

primrec expo_search :: "nat \<Rightarrow> nat \<Rightarrow> rat \<Rightarrow> nat" where
  "expo_search 0 k s = k"
| "expo_search (Suc fuel) k s =
     (if s < 2 ^ (k + 53) then k else expo_search fuel (Suc k) s)"

definition ulp_exp :: "rat \<Rightarrow> nat" where
  "ulp_exp s = expo_search 2045 0 s"

definition round_scaled :: "rat \<Rightarrow> int" where
  "round_scaled s = round_half_even (s / 2 ^ ulp_exp s) * 2 ^ ulp_exp s"

text \<open>The rounded magnitude of a non-negative rational; \<open>None\<close> is overflow.\<close>

definition round_mag :: "rat \<Rightarrow> rat option" where
  "round_mag a =
     (let n = round_scaled (a * 2 ^ 1074)
      in if 2 ^ 2098 \<le> n then None else Some (of_int n / 2 ^ 1074))"

definition mk_float :: "bool \<Rightarrow> rat \<Rightarrow> pyfloat" where
  "mk_float neg a =
     (case round_mag a of
        None \<Rightarrow> (if neg then NInf else PInf)
      | Some r \<Rightarrow>
          (if r = 0 then (if neg then NegZero else Fin 0)
           else Fin (if neg then - r else r)))"

text \<open>A float literal of the source text denotes the binary64 value nearest to it.\<close>

definition float_lit :: "rat \<Rightarrow> pyfloat" where
  "float_lit q = mk_float (q < 0) \<bar>q\<bar>"

fun is_neg :: "pyfloat \<Rightarrow> bool" where
  "is_neg NInf = True"
| "is_neg NegZero = True"
| "is_neg (Fin q) = (q < 0)"
| "is_neg _ = False"

fun is_inf :: "pyfloat \<Rightarrow> bool" where
  "is_inf PInf = True"
| "is_inf NInf = True"
| "is_inf _ = False"

fun is_zero :: "pyfloat \<Rightarrow> bool" where
  "is_zero NegZero = True"
| "is_zero (Fin q) = (q = 0)"
| "is_zero _ = False"

fun fin_val :: "pyfloat \<Rightarrow> rat" where
  "fin_val (Fin q) = q"
| "fin_val _ = 0"

text \<open>
  A value of the type is a float when its finite payload is a binary64 number, that is
  when rounding leaves it alone. Every Python float is one; the type \<open>pyfloat\<close> also has
  finite payloads off the grid, which no Python value denotes.
\<close>

fun is_float :: "pyfloat \<Rightarrow> bool" where
  "is_float (Fin q) = (mk_float (q < 0) \<bar>q\<bar> = Fin q)"
| "is_float _ = True"

datatype py_error = KeyError | ZeroDivisionError

text \<open>\<^verbatim>\<open>a * b\<close> on floats: never raises; overflow gives an infinity.\<close>

definition py_mul :: "pyfloat \<Rightarrow> pyfloat \<Rightarrow> pyfloat" where
  "py_mul a b =
     (if a = NaN \<or> b = NaN then NaN
      else if is_inf a \<or> is_inf b then
        (if is_zero a \<or> is_zero b then NaN
         else if is_neg a \<noteq> is_neg b then NInf else PInf)
      else mk_float (is_neg a \<noteq> is_neg b) (\<bar>fin_val a\<bar> * \<bar>fin_val b\<bar>))"

text \<open>\<^verbatim>\<open>a / b\<close> on floats: a zero divisor raises ZeroDivisionError, whatever the dividend.\<close>

definition py_truediv :: "pyfloat \<Rightarrow> pyfloat \<Rightarrow> py_error + pyfloat" where
  "py_truediv a b =
     (if is_zero b then Inl ZeroDivisionError
      else if a = NaN \<or> b = NaN then Inr NaN
      else if is_inf a then
        (if is_inf b then Inr NaN
         else Inr (if is_neg a \<noteq> is_neg b then NInf else PInf))
      else if is_inf b then Inr (if is_neg a \<noteq> is_neg b then NegZero else Fin 0)
      else Inr (mk_float (is_neg a \<noteq> is_neg b) (\<bar>fin_val a\<bar> / \<bar>fin_val b\<bar>)))"

text \<open>\<^verbatim>\<open>a < b\<close> on floats: false as soon as one side is NaN; the two zeros are equal.\<close>

fun py_lt :: "pyfloat \<Rightarrow> pyfloat \<Rightarrow> bool" where
  "py_lt NaN b = False"
| "py_lt a NaN = False"
| "py_lt PInf b = False"
| "py_lt a PInf = True"
| "py_lt a NInf = False"
| "py_lt NInf b = True"
| "py_lt a b = (fin_val a < fin_val b)"

definition py_gt :: "pyfloat \<Rightarrow> pyfloat \<Rightarrow> bool" where
  "py_gt a b = py_lt b a"

text \<open>\<^verbatim>\<open>a <= b\<close> on floats; \<open>py_le b a\<close> is \<^verbatim>\<open>a >= b\<close>.\<close>

definition py_le :: "pyfloat \<Rightarrow> pyfloat \<Rightarrow> bool" where
  "py_le a b = (a \<noteq> NaN \<and> b \<noteq> NaN \<and> \<not> py_lt b a)"

text \<open>
  The builtin \<^verbatim>\<open>max(a, b)\<close> keeps its first argument unless the second is greater.
\<close>

definition py_max :: "pyfloat \<Rightarrow> pyfloat \<Rightarrow> pyfloat" where
  "py_max a b = (if py_gt b a then b else a)"

section \<open>Dictionaries\<close>

definition dict_get :: "('k \<times> 'v) list \<Rightarrow> 'k \<Rightarrow> 'v \<Rightarrow> 'v" where
  "dict_get d k dflt = (case map_of d k of None \<Rightarrow> dflt | Some v \<Rightarrow> v)"

definition dict_index :: "('k \<times> 'v) list \<Rightarrow> 'k \<Rightarrow> py_error + 'v" where
  "dict_index d k = (case map_of d k of None \<Rightarrow> Inl KeyError | Some v \<Rightarrow> Inr v)"

section \<open>The inference service (app.py)\<close>

record vehicle_profile =
  weight :: int
  co2_factor :: pyfloat
  energy_mode :: string

definition VEHICLE_FACTORS :: "(string \<times> vehicle_profile) list" where
  "VEHICLE_FACTORS =
    [(''car'', \<lparr>weight = 1200, co2_factor = float_lit 1, energy_mode = ''fuel''\<rparr>),
     (''van'', \<lparr>weight = 2500, co2_factor = float_lit (14 / 10), energy_mode = ''fuel''\<rparr>),
     (''bike'', \<lparr>weight = 200, co2_factor = float_lit (2 / 10), energy_mode = ''fuel''\<rparr>),
     (''ev'', \<lparr>weight = 1800, co2_factor = float_lit 0, energy_mode = ''electric''\<rparr>),
     (''cargo_ship'', \<lparr>weight = 500000, co2_factor = float_lit 8, energy_mode = ''fuel''\<rparr>),
     (''tanker'', \<lparr>weight = 700000, co2_factor = float_lit 10, energy_mode = ''fuel''\<rparr>),
     (''ferry'', \<lparr>weight = 100000, co2_factor = float_lit 5, energy_mode = ''fuel''\<rparr>)]"

record features =
  distance_km :: pyfloat
  elevation_gain_m :: pyfloat
  avg_speed_kph :: pyfloat
  turns :: int
  humps :: int
  weight_kg :: pyfloat
  traffic_index :: pyfloat
  route_type :: string
  vehicle :: string

text \<open>
  The entries of the list handed to \<^verbatim>\<open>np.array\<close>: Python ints (\<^verbatim>\<open>turns\<close>,
  \<^verbatim>\<open>humps\<close>, the profile's weight, the route code) and floats. The row is kept as this
  list; what numpy and the regressor make of it belongs to the regressor.
\<close>

datatype pynum = PyInt int | PyFloat pyfloat

text \<open>The returned dictionary; the key \<^verbatim>\<open>energy_kwh\<close> is present on the electric path only.\<close>

record prediction =
  fuel_l :: pyfloat
  energy_kwh :: "pyfloat option"
  co2_kg :: pyfloat

definition route_map :: "(string \<times> int) list" where
  "route_map = [(''fast'', 0), (''eco'', 1), (''safe'', 2)]"

text \<open>Line 44: \<^verbatim>\<open>route_map.get(feat.route_type, 0)\<close>.\<close>

definition route_type_val :: "string \<Rightarrow> int" where
  "route_type_val rt = dict_get route_map rt 0"

text \<open>
  Line 47: \<^verbatim>\<open>VEHICLE_FACTORS.get(feat.vehicle, VEHICLE_FACTORS["car"])\<close>. The default
  is evaluated first, by a subscript that raises KeyError on a missing key.
\<close>

definition resolve_vehicle :: "string \<Rightarrow> py_error + vehicle_profile" where
  "resolve_vehicle name =
     (case dict_index VEHICLE_FACTORS ''car'' of
        Inl e \<Rightarrow> Inl e
      | Inr dflt \<Rightarrow> Inr (dict_get VEHICLE_FACTORS name dflt))"

text \<open>Lines 52-61: the row handed to the regressor.\<close>

definition build_X :: "features \<Rightarrow> vehicle_profile \<Rightarrow> pynum list" where
  "build_X feat v =
     [PyFloat (distance_km feat),
      PyFloat (elevation_gain_m feat),
      PyFloat (avg_speed_kph feat),
      PyInt (turns feat),
      PyInt (humps feat),
      PyInt (weight v),
      PyFloat (traffic_index feat),
      PyInt (route_type_val (route_type feat))]"

text \<open>
  Lines 68-69: \<^verbatim>\<open>co2 *= co2_factor; fuel *= max(1.0, co2_factor / 2.0)\<close>, on the pair
  \<open>(fuel, co2)\<close>.
\<close>

definition scale_emissions ::
  "vehicle_profile \<Rightarrow> pyfloat \<times> pyfloat \<Rightarrow> py_error + pyfloat \<times> pyfloat" where
  "scale_emissions v raw =
     (let co2 = py_mul (snd raw) (co2_factor v)
      in case py_truediv (co2_factor v) (float_lit 2) of
           Inl e \<Rightarrow> Inl e
         | Inr half \<Rightarrow> Inr (py_mul (fst raw) (py_max (float_lit 1) half), co2))"

text \<open>Lines 82-90: the extra adjustment of ships, on the pair \<open>(fuel, co2)\<close>.\<close>

definition ship_adjust :: "features \<Rightarrow> pyfloat \<times> pyfloat \<Rightarrow> pyfloat \<times> pyfloat" where
  "ship_adjust feat p =
     (if vehicle feat \<in> set [''cargo_ship'', ''tanker'', ''ferry''] then
        (if route_type feat = ''eco'' then
           (py_mul (fst p) (float_lit (85 / 100)), py_mul (snd p) (float_lit (85 / 100)))
         else if route_type feat = ''safe'' then
           (py_mul (fst p) (float_lit (12 / 10)), py_mul (snd p) (float_lit (12 / 10)))
         else p)
      else p)"

text \<open>Lines 65-95: everything \<^verbatim>\<open>predict\<close> does with the regressor's output.\<close>

definition adjust ::
  "vehicle_profile \<Rightarrow> features \<Rightarrow> pyfloat \<times> pyfloat \<Rightarrow> py_error + prediction" where
  "adjust v feat raw =
     (case scale_emissions v raw of
        Inl e \<Rightarrow> Inl e
      | Inr scaled \<Rightarrow>
          (if energy_mode v = ''electric'' then
             Inr \<lparr>fuel_l = float_lit 0,
                  energy_kwh = Some (py_mul (distance_km feat) (float_lit (2 / 10))),
                  co2_kg = snd scaled\<rparr>
           else
             (let p = ship_adjust feat scaled
              in Inr \<lparr>fuel_l = fst p, energy_kwh = None, co2_kg = snd p\<rparr>)))"

text \<open>
  \<^verbatim>\<open>predict(feat)\<close>; the loaded regressor is the parameter \<open>model\<close>, which maps the row to
  the pair \<^verbatim>\<open>(float(pred[0]), float(pred[1]))\<close>. A regressor that returns its two floats
  is a total function of this type; its floats may be anything, NaN and the infinities
  included.
\<close>

definition predict ::
  "(pynum list \<Rightarrow> pyfloat \<times> pyfloat) \<Rightarrow> features \<Rightarrow> py_error + prediction" where
  "predict model feat =
     (case resolve_vehicle (vehicle feat) of
        Inl e \<Rightarrow> Inl e
      | Inr v \<Rightarrow> adjust v feat (model (build_X feat v)))"

section \<open>The trainer's tables (train_model.py)\<close>

definition train_VEHICLE_FACTORS :: "(string \<times> vehicle_profile) list" where
  "train_VEHICLE_FACTORS =
    [(''car'', \<lparr>weight = 1200, co2_factor = float_lit 1, energy_mode = ''fuel''\<rparr>),
     (''van'', \<lparr>weight = 2500, co2_factor = float_lit (14 / 10), energy_mode = ''fuel''\<rparr>),
     (''bike'', \<lparr>weight = 200, co2_factor = float_lit (2 / 10), energy_mode = ''fuel''\<rparr>),
     (''ev'', \<lparr>weight = 1800, co2_factor = float_lit 0, energy_mode = ''electric''\<rparr>),
     (''cargo_ship'', \<lparr>weight = 500000, co2_factor = float_lit 8, energy_mode = ''fuel''\<rparr>),
     (''tanker'', \<lparr>weight = 700000, co2_factor = float_lit 10, energy_mode = ''fuel''\<rparr>),
     (''ferry'', \<lparr>weight = 100000, co2_factor = float_lit 5, energy_mode = ''fuel''\<rparr>)]"

definition ROUTE_TYPES :: "(string \<times> int) list" where
  "ROUTE_TYPES = [(''fast'', 0), (''eco'', 1), (''safe'', 2)]"

section \<open>Rounding to binary64\<close>

subsection \<open>Ties-to-even and the exponent search\<close>

lemma round_half_even_of_int: "round_half_even (of_int n) = n"
  by (simp add: round_half_even_def)

lemma round_half_even_bounds: "\<lfloor>x\<rfloor> \<le> round_half_even x" "round_half_even x \<le> \<lfloor>x\<rfloor> + 1"
  by (simp_all add: round_half_even_def Let_def)

lemma round_half_even_mono:
  assumes "x \<le> y"
  shows "round_half_even x \<le> round_half_even y"
proof (cases "\<lfloor>x\<rfloor> = \<lfloor>y\<rfloor>")
  case True
  with assms show ?thesis
    by (auto simp: round_half_even_def Let_def)
next
  case False
  with assms have "\<lfloor>x\<rfloor> < \<lfloor>y\<rfloor>"
    by (simp add: floor_mono order.strict_iff_order)
  then have "\<lfloor>x\<rfloor> + 1 \<le> \<lfloor>y\<rfloor>" by simp
  with round_half_even_bounds(2)[of x] round_half_even_bounds(1)[of y]
  show ?thesis by linarith
qed

lemma expo_search_ge: "k \<le> expo_search fuel k s"
  by (induction fuel arbitrary: k) (auto intro: Suc_leD)

lemma expo_search_le: "expo_search fuel k s \<le> k + fuel"
proof (induction fuel arbitrary: k)
  case 0
  then show ?case by simp
next
  case (Suc fuel)
  from Suc.IH[of "Suc k"] show ?case by simp
qed

lemma expo_search_upper:
  "expo_search fuel k s < k + fuel \<Longrightarrow> s < 2 ^ (expo_search fuel k s + 53)"
proof (induction fuel arbitrary: k)
  case 0
  then show ?case by simp
next
  case (Suc fuel)
  show ?case
  proof (cases "s < 2 ^ (k + 53)")
    case True
    then show ?thesis by simp
  next
    case False
    with Suc.prems have "expo_search fuel (Suc k) s < Suc k + fuel" by simp
    from Suc.IH[OF this] False show ?thesis by simp
  qed
qed

lemma expo_search_lower:
  "k < expo_search fuel k s \<Longrightarrow> 2 ^ (expo_search fuel k s + 52) \<le> s"
proof (induction fuel arbitrary: k)
  case 0
  then show ?case by simp
next
  case (Suc fuel)
  show ?case
  proof (cases "s < 2 ^ (k + 53)")
    case True
    with Suc.prems show ?thesis by simp
  next
    case False
    show ?thesis
    proof (cases "Suc k < expo_search fuel (Suc k) s")
      case True
      from Suc.IH[OF this] False show ?thesis by simp
    next
      case F2: False
      with expo_search_ge[of "Suc k" fuel s] have "expo_search fuel (Suc k) s = Suc k" by simp
      with False show ?thesis by (simp add: not_less add.commute)
    qed
  qed
qed

lemma ulp_exp_le: "ulp_exp s \<le> 2045"
  using expo_search_le[of 2045 0 s] by (simp add: ulp_exp_def)

lemma ulp_exp_upper: "ulp_exp s < 2045 \<Longrightarrow> s < 2 ^ (ulp_exp s + 53)"
  using expo_search_upper[of 2045 0 s] by (simp add: ulp_exp_def)

lemma ulp_exp_lower: "0 < ulp_exp s \<Longrightarrow> 2 ^ (ulp_exp s + 52) \<le> s"
  using expo_search_lower[of 0 2045 s] by (simp add: ulp_exp_def)

lemma ulp_exp_least:
  assumes "s < 2 ^ (k + 53)"
  shows "ulp_exp s \<le> k"
proof (rule ccontr)
  assume "\<not> ulp_exp s \<le> k"
  then have k: "k < ulp_exp s" by simp
  then have "2 ^ (ulp_exp s + 52) \<le> s" by (intro ulp_exp_lower) simp
  moreover from k have "(2::rat) ^ (k + 53) \<le> 2 ^ (ulp_exp s + 52)"
    by (intro power_increasing) simp_all
  ultimately show False using assms by simp
qed

lemma ulp_exp_greatest:
  assumes "2 ^ (k + 52) \<le> s" "k \<le> 2045"
  shows "k \<le> ulp_exp s"
proof (rule ccontr)
  assume "\<not> k \<le> ulp_exp s"
  then have k: "ulp_exp s < k" by simp
  with assms(2) have "s < 2 ^ (ulp_exp s + 53)" by (intro ulp_exp_upper) simp
  moreover from k have "(2::rat) ^ (ulp_exp s + 53) \<le> 2 ^ (k + 52)"
    by (intro power_increasing) simp_all
  ultimately show False using assms by simp
qed

lemma ulp_exp_eqI:
  assumes "k = 0 \<or> 2 ^ (k + 52) \<le> s" "k = 2045 \<or> s < 2 ^ (k + 53)" "k \<le> 2045"
  shows "ulp_exp s = k"
proof (rule antisym)
  show "ulp_exp s \<le> k"
    using assms(2) ulp_exp_le[of s] ulp_exp_least[of s k] by auto
  show "k \<le> ulp_exp s"
    using assms(1,3) ulp_exp_greatest[of k s] by auto
qed

lemma ulp_exp_mono:
  assumes "s \<le> t"
  shows "ulp_exp s \<le> ulp_exp t"
proof (cases "ulp_exp t < 2045")
  case True
  then have "t < 2 ^ (ulp_exp t + 53)" by (rule ulp_exp_upper)
  with assms have "s < 2 ^ (ulp_exp t + 53)" by simp
  then show ?thesis by (rule ulp_exp_least)
next
  case False
  with ulp_exp_le[of t] have "ulp_exp t = 2045" by simp
  with ulp_exp_le[of s] show ?thesis by simp
qed

lemma round_scaled_grid:
  assumes "0 \<le> n" "n < 2 ^ 53" "k \<le> 2045"
  shows "round_scaled (of_int n * 2 ^ k) = n * 2 ^ k"
proof -
  define s :: rat where "s = of_int n * 2 ^ k"
  define j where "j = ulp_exp s"
  have "(of_int n :: rat) < of_int (2 ^ 53)"
    using assms(2) by (simp only: of_int_less_iff)
  then have "(of_int n :: rat) < 2 ^ 53" by simp
  then have "s < 2 ^ 53 * 2 ^ k"
    unfolding s_def by (simp only: mult_less_cancel_right_pos zero_less_power zero_less_numeral)
  then have "s < 2 ^ (k + 53)" by (simp only: power_add mult.commute)
  then have jk: "j \<le> k" unfolding j_def by (rule ulp_exp_least)
  then have "(2::rat) ^ k = 2 ^ (k - j) * 2 ^ j"
    by (simp add: power_add[symmetric])
  then have "s / 2 ^ j = of_int (n * 2 ^ (k - j))"
    unfolding s_def by simp
  then have "round_half_even (s / 2 ^ j) = n * 2 ^ (k - j)"
    by (simp only: round_half_even_of_int)
  then have "round_scaled s = n * 2 ^ (k - j) * 2 ^ j"
    by (simp add: round_scaled_def j_def)
  also have "\<dots> = n * 2 ^ k"
    using jk by (simp add: power_add[symmetric])
  finally show ?thesis by (simp add: s_def)
qed

lemma round_scaled_top:
  assumes "2 ^ 53 \<le> n" "k = 2045"
  shows "round_scaled (of_int n * 2 ^ k) = n * 2 ^ k"
proof -
  define s :: rat where "s = of_int n * 2 ^ k"
  have k: "k \<le> 2045" using assms(2) by simp
  have "(of_int (2 ^ 53) :: rat) \<le> of_int n"
    using assms(1) by (simp only: of_int_le_iff)
  then have "(2::rat) ^ 53 \<le> of_int n" by simp
  then have "(2::rat) ^ 53 * 2 ^ k \<le> s"
    unfolding s_def by (simp only: mult_le_cancel_right_pos zero_less_power zero_less_numeral)
  moreover have "(2::rat) ^ (k + 52) \<le> 2 ^ 53 * 2 ^ k"
    by (simp add: power_add)
  ultimately have "2 ^ (k + 52) \<le> s" by (rule order_trans[rotated])
  then have "k \<le> ulp_exp s" using k by (rule ulp_exp_greatest)
  moreover have "ulp_exp s \<le> k" using ulp_exp_le[of s] assms(2) by (simp only:)
  ultimately have j: "ulp_exp s = k" by (rule antisym[rotated])
  have "s / 2 ^ k = of_int n" by (simp add: s_def)
  then have "round_half_even (s / 2 ^ k) = n"
    by (simp only: round_half_even_of_int)
  then show ?thesis
    by (simp add: round_scaled_def j s_def[symmetric])
qed

lemma round_half_even_nonneg: "0 \<le> x \<Longrightarrow> 0 \<le> round_half_even x"
  using round_half_even_mono[of 0 x] round_half_even_of_int[of 0] by simp

lemma round_scaled_nonneg: "0 \<le> s \<Longrightarrow> 0 \<le> round_scaled s"
  by (simp add: round_scaled_def round_half_even_nonneg)

lemma round_scaled_mantissa_le:
  assumes "ulp_exp s < 2045"
  shows "round_half_even (s / 2 ^ ulp_exp s) \<le> 2 ^ 53"
proof -
  have "s < 2 ^ (ulp_exp s + 53)" using assms by (rule ulp_exp_upper)
  then have "s / 2 ^ ulp_exp s \<le> of_int (2 ^ 53)"
    by (simp add: power_add field_simps)
  from round_half_even_mono[OF this] show ?thesis
    by (simp only: round_half_even_of_int)
qed

lemma round_scaled_mantissa_ge:
  assumes "0 < ulp_exp s"
  shows "2 ^ 52 \<le> round_half_even (s / 2 ^ ulp_exp s)"
proof -
  have "2 ^ (ulp_exp s + 52) \<le> s" using assms by (rule ulp_exp_lower)
  then have "of_int (2 ^ 52) \<le> s / 2 ^ ulp_exp s"
    by (simp add: power_add field_simps)
  from round_half_even_mono[OF this] show ?thesis
    by (simp only: round_half_even_of_int)
qed

lemma round_scaled_mono:
  assumes "s \<le> t"
  shows "round_scaled s \<le> round_scaled t"
proof (cases "ulp_exp s = ulp_exp t")
  case True
  have "s / 2 ^ ulp_exp t \<le> t / 2 ^ ulp_exp t"
    using assms by (simp add: divide_right_mono)
  from round_half_even_mono[OF this] show ?thesis
    by (simp add: round_scaled_def True)
next
  case False
  with ulp_exp_mono[OF assms] have lt: "ulp_exp s < ulp_exp t" by simp
  with ulp_exp_le[of t] have "ulp_exp s < 2045" by simp
  then have "round_half_even (s / 2 ^ ulp_exp s) \<le> 2 ^ 53"
    by (rule round_scaled_mantissa_le)
  then have "round_scaled s \<le> 2 ^ 53 * 2 ^ ulp_exp s"
    by (simp add: round_scaled_def)
  also have "\<dots> = 2 ^ (ulp_exp s + 53)" by (simp add: power_add)
  also have "\<dots> \<le> (2::int) ^ (ulp_exp t + 52)"
    using lt by (intro power_increasing) simp_all
  also have "\<dots> = 2 ^ 52 * 2 ^ ulp_exp t" by (simp add: power_add)
  also have "\<dots> \<le> round_scaled t"
    using round_scaled_mantissa_ge[of t] lt by (simp add: round_scaled_def)
  finally show ?thesis .
qed

lemma round_scaled_idem:
  assumes "0 \<le> s"
  shows "round_scaled (of_int (round_scaled s)) = round_scaled s"
proof -
  define j where "j = ulp_exp s"
  define n where "n = round_half_even (s / 2 ^ j)"
  have r: "round_scaled s = n * 2 ^ j" by (simp add: round_scaled_def n_def j_def)
  have n0: "0 \<le> n" unfolding n_def using assms by (intro round_half_even_nonneg) simp
  have j: "j \<le> 2045" unfolding j_def by (rule ulp_exp_le)
  consider "n < 2 ^ 53" | "2 ^ 53 \<le> n" "j < 2045" | "2 ^ 53 \<le> n" "j = 2045"
    using j by linarith
  then have "round_scaled (of_int n * 2 ^ j) = n * 2 ^ j"
  proof cases
    case 1
    with n0 j show ?thesis by (intro round_scaled_grid)
  next
    case 2
    from round_scaled_mantissa_le[of s] 2 have n: "n = 2 ^ 53" by (simp add: n_def j_def)
    have "round_scaled (of_int (2 ^ 52) * 2 ^ Suc j) = 2 ^ 52 * 2 ^ Suc j"
      using 2 by (intro round_scaled_grid) simp_all
    moreover have "(of_int (2 ^ 52) :: rat) * 2 ^ Suc j = of_int n * 2 ^ j"
      by (simp add: n)
    moreover have "(2::int) ^ 52 * 2 ^ Suc j = n * 2 ^ j"
      by (simp add: n)
    ultimately show ?thesis by (simp only:)
  next
    case 3
    then show ?thesis by (intro round_scaled_top)
  qed
  with r show ?thesis by simp
qed

lemma round_scaled_exact:
  assumes "0 \<le> n" "k \<le> 2045" "n \<le> 2 ^ 53 \<or> k = 2045"
  shows "round_scaled (of_int n * 2 ^ k) = n * 2 ^ k"
proof -
  consider "n < 2 ^ 53" | "n = 2 ^ 53" "k < 2045" | "2 ^ 53 \<le> n" "k = 2045"
    using assms(2,3) by linarith
  then show ?thesis
  proof cases
    case 1
    with assms show ?thesis by (intro round_scaled_grid)
  next
    case 2
    have "round_scaled (of_int (2 ^ 52) * 2 ^ Suc k) = 2 ^ 52 * 2 ^ Suc k"
      using 2 by (intro round_scaled_grid) simp_all
    moreover have "(of_int (2 ^ 52) :: rat) * 2 ^ Suc k = of_int n * 2 ^ k"
      by (simp add: 2)
    moreover have "(2::int) ^ 52 * 2 ^ Suc k = n * 2 ^ k"
      by (simp add: 2)
    ultimately show ?thesis by (simp only:)
  next
    case 3
    then show ?thesis by (intro round_scaled_top)
  qed
qed

lemma round_scaled_zero: "round_scaled 0 = 0"
  using round_scaled_grid[of 0 0] by simp

lemma round_scaled_double:
  assumes "0 \<le> m" "round_scaled (of_int m) = m"
  shows "round_scaled (of_int (2 * m)) = 2 * m"
proof -
  define j where "j = ulp_exp (of_int m)"
  define n where "n = round_half_even (of_int m / 2 ^ j)"
  have m: "m = n * 2 ^ j"
    using assms(2) by (simp add: round_scaled_def n_def j_def)
  have n0: "0 \<le> n"
    unfolding n_def using assms(1) by (intro round_half_even_nonneg) simp
  have j: "j \<le> 2045" unfolding j_def by (rule ulp_exp_le)
  show ?thesis
  proof (cases "j < 2045")
    case True
    then have "n \<le> 2 ^ 53"
      unfolding n_def j_def by (rule round_scaled_mantissa_le)
    with n0 True have "round_scaled (of_int n * 2 ^ Suc j) = n * 2 ^ Suc j"
      by (intro round_scaled_exact) simp_all
    then show ?thesis by (simp add: m mult.commute mult.left_commute)
  next
    case False
    with j have "j = 2045" by simp
    with n0 have "round_scaled (of_int (2 * n) * 2 ^ j) = 2 * n * 2 ^ j"
      by (intro round_scaled_exact) simp_all
    then show ?thesis by (simp add: m mult.commute mult.left_commute)
  qed
qed

lemma round_mag_zero: "round_mag 0 = Some 0"
  by (simp add: round_mag_def round_scaled_zero)

lemma round_mag_nonneg: "0 \<le> a \<Longrightarrow> round_mag a = Some r \<Longrightarrow> 0 \<le> r"
  using round_scaled_nonneg[of "a * 2 ^ 1074"]
  by (auto simp: round_mag_def Let_def split: if_splits)

lemma round_mag_mono:
  assumes "a \<le> b" "round_mag b = Some r'"
  shows "\<exists>r. round_mag a = Some r \<and> r \<le> r'"
proof -
  have "a * 2 ^ 1074 \<le> b * 2 ^ 1074"
    using assms(1) by (simp only: mult_le_cancel_right_pos zero_less_power zero_less_numeral)
  then have le: "round_scaled (a * 2 ^ 1074) \<le> round_scaled (b * 2 ^ 1074)"
    by (rule round_scaled_mono)
  from assms(2) have b: "\<not> 2 ^ 2098 \<le> round_scaled (b * 2 ^ 1074)"
    and r': "r' = of_int (round_scaled (b * 2 ^ 1074)) / 2 ^ 1074"
    by (auto simp: round_mag_def Let_def split: if_splits)
  from le b have "\<not> 2 ^ 2098 \<le> round_scaled (a * 2 ^ 1074)" by linarith
  then have "round_mag a = Some (of_int (round_scaled (a * 2 ^ 1074)) / 2 ^ 1074)"
    by (simp add: round_mag_def Let_def)
  moreover have "(of_int (round_scaled (a * 2 ^ 1074)) :: rat) / 2 ^ 1074 \<le> r'"
    unfolding r' using le by (simp only: divide_le_cancel of_int_le_iff zero_less_power zero_less_numeral) simp
  ultimately show ?thesis by blast
qed

lemma round_mag_idem:
  assumes "0 \<le> a" "round_mag a = Some r"
  shows "round_mag r = Some r"
proof -
  define m where "m = round_scaled (a * 2 ^ 1074)"
  from assms(2) have b: "\<not> 2 ^ 2098 \<le> m" and r: "r = of_int m / 2 ^ 1074"
    by (auto simp: round_mag_def Let_def m_def split: if_splits)
  have "r * 2 ^ 1074 = of_int m" by (simp add: r)
  moreover have "round_scaled (of_int m) = m"
    unfolding m_def using assms(1) by (intro round_scaled_idem) simp
  ultimately show ?thesis
    using b by (simp add: round_mag_def Let_def r)
qed

lemma round_mag_double:
  assumes "0 \<le> r" "round_mag r = Some r"
  shows "round_mag (2 * r) = None \<or> round_mag (2 * r) = Some (2 * r)"
proof -
  define m where "m = round_scaled (r * 2 ^ 1074)"
  from assms(2) have r: "r = of_int m / 2 ^ 1074"
    by (auto simp: round_mag_def Let_def m_def split: if_splits)
  then have rm: "r * 2 ^ 1074 = of_int m" by simp
  have m0: "0 \<le> m" unfolding m_def using assms(1) by (intro round_scaled_nonneg) simp
  have "round_scaled (of_int m) = m" using rm m_def by simp
  with m0 have "round_scaled (of_int (2 * m)) = 2 * m" by (rule round_scaled_double)
  moreover have "2 * r * 2 ^ 1074 = of_int (2 * m)" using rm by simp
  ultimately have "round_scaled (2 * r * 2 ^ 1074) = 2 * m" by (simp only:)
  then show ?thesis
    by (simp add: round_mag_def Let_def r)
qed

lemma round_mag_at:
  assumes "0 \<le> a" "d \<le> 1074" "d = 1074 \<or> 2 ^ 52 \<le> a * 2 ^ d" "a * 2 ^ d < 2 ^ 53"
  shows "round_mag a = Some (of_int (round_half_even (a * 2 ^ d)) / 2 ^ d)"
proof -
  define k where "k = 1074 - d"
  define n where "n = round_half_even (a * 2 ^ d)"
  have kd: "k + d = 1074" using assms(2) by (simp add: k_def)
  have p: "(2::rat) ^ 1074 = 2 ^ d * 2 ^ k"
    by (simp only: kd[symmetric] power_add mult.commute)
  have pi: "(2::int) ^ 1074 = 2 ^ d * 2 ^ k"
    by (simp only: kd[symmetric] power_add mult.commute)
  have s: "a * 2 ^ 1074 = a * 2 ^ d * 2 ^ k"
    by (simp only: p mult.assoc)
  have "k = 0 \<or> 2 ^ (k + 52) \<le> a * 2 ^ d * 2 ^ k"
  proof (cases "d = 1074")
    case True
    then show ?thesis by (simp add: k_def)
  next
    case False
    with assms(3) have "2 ^ 52 * 2 ^ k \<le> a * 2 ^ d * 2 ^ k"
      by (simp only: mult_le_cancel_right_pos zero_less_power zero_less_numeral) simp
    then show ?thesis by (simp only: power_add mult.commute) simp
  qed
  moreover have "a * 2 ^ d * 2 ^ k < 2 ^ 53 * 2 ^ k"
    using assms(4) by (simp only: mult_less_cancel_right_pos zero_less_power zero_less_numeral)
  then have "k = 2045 \<or> a * 2 ^ d * 2 ^ k < 2 ^ (k + 53)"
    by (simp only: power_add mult.commute) simp
  moreover have "k \<le> 2045" by (simp add: k_def)
  ultimately have j: "ulp_exp (a * 2 ^ d * 2 ^ k) = k" by (rule ulp_exp_eqI)
  have rs: "round_scaled (a * 2 ^ 1074) = n * 2 ^ k"
    by (simp only: round_scaled_def s j n_def nonzero_mult_div_cancel_right power_not_zero
        zero_neq_numeral not_False_eq_True)
  have "a * 2 ^ d \<le> of_int (2 ^ 53)" using assms(4) by simp
  from round_half_even_mono[OF this] have n53: "n \<le> 2 ^ 53"
    by (simp only: round_half_even_of_int n_def)
  have "(2::int) ^ k \<le> 2 ^ 1074"
    by (intro power_increasing) (simp_all add: k_def)
  with n53 have "n * 2 ^ k \<le> 2 ^ 53 * 2 ^ 1074"
    by (intro mult_mono) simp_all
  also have "\<dots> < (2::int) ^ 2098" by (simp add: power_add[symmetric])
  finally have nov: "\<not> 2 ^ 2098 \<le> n * 2 ^ k" by simp
  have "(of_int (n * 2 ^ k) :: rat) / (2 ^ d * 2 ^ k) = of_int n / 2 ^ d"
    by simp
  then have v: "(of_int (n * 2 ^ k) :: rat) / 2 ^ 1074 = of_int n / 2 ^ d"
    by (simp only: p)
  show ?thesis
    unfolding round_mag_def Let_def rs v using nov by (simp only: if_False n_def)
qed

lemma mk_float_at:
  assumes "0 \<le> a" "d \<le> 1074" "d = 1074 \<or> 2 ^ 52 \<le> a * 2 ^ d" "a * 2 ^ d < 2 ^ 53"
    and "round_half_even (a * 2 ^ d) = n" "0 < n"
  shows "mk_float neg a = Fin ((if neg then - 1 else 1) * (of_int n / 2 ^ d))"
  using round_mag_at[OF assms(1-4)] assms(5,6) by (simp add: mk_float_def)

lemma round_half_even_divide:
  assumes "0 < q"
  shows "round_half_even (of_int p / of_int q) =
     (let f = p div q; r = p mod q
      in if 2 * r < q then f else if q < 2 * r then f + 1 else if even f then f else f + 1)"
proof -
  have q: "(0::rat) < of_int q" using assms by simp
  have "(of_int p :: rat) = of_int (p div q) * of_int q + of_int (p mod q)"
    by (simp only: of_int_mult[symmetric] of_int_add[symmetric]) simp
  then have d: "(of_int p :: rat) / of_int q - of_int (p div q) = of_int (p mod q) / of_int q"
    using q by (simp add: field_simps)
  have lt: "(of_int (p mod q) :: rat) / of_int q < 1 / 2 \<longleftrightarrow> 2 * (p mod q) < q"
  proof -
    have "(of_int (p mod q) :: rat) / of_int q < 1 / 2 \<longleftrightarrow>
        (of_int (2 * (p mod q)) :: rat) < of_int q"
      using q by (simp add: field_simps)
    then show ?thesis by (simp only: of_int_less_iff)
  qed
  have gt: "(1::rat) / 2 < of_int (p mod q) / of_int q \<longleftrightarrow> q < 2 * (p mod q)"
  proof -
    have "(1::rat) / 2 < of_int (p mod q) / of_int q \<longleftrightarrow>
        (of_int q :: rat) < of_int (2 * (p mod q))"
      using q by (simp add: field_simps)
    then show ?thesis by (simp only: of_int_less_iff)
  qed
  show ?thesis
    by (simp only: round_half_even_def floor_divide_of_int_eq d lt gt Let_def)
qed

lemma round_half_even_numeral_divide:
  "round_half_even (numeral a / numeral b) =
     (let f = numeral a div numeral b; r = numeral a mod numeral b :: int
      in if 2 * r < numeral b then f
         else if numeral b < 2 * r then f + 1 else if even f then f else f + 1)"
  using round_half_even_divide[of "numeral b" "numeral a"] by simp

lemma round_half_even_numeral: "round_half_even (numeral a) = numeral a"
  using round_half_even_of_int[of "numeral a"] by simp

lemmas rhe_eval = round_half_even_numeral_divide round_half_even_numeral Let_def

subsection \<open>Literals of the source\<close>

lemma float_lit_0: "float_lit 0 = Fin 0"
  by (simp add: float_lit_def mk_float_def round_mag_zero)

lemma float_lit_1: "float_lit 1 = Fin 1"
proof -
  have "mk_float False 1 = Fin ((if False then - 1 else 1) * (of_int (2 ^ 52) / 2 ^ 52))"
    by (rule mk_float_at) (simp_all add: rhe_eval)
  then show ?thesis by (simp add: float_lit_def)
qed

lemma float_lit_2: "float_lit 2 = Fin 2"
proof -
  have "mk_float False 2 = Fin ((if False then - 1 else 1) * (of_int (2 ^ 52) / 2 ^ 51))"
    by (rule mk_float_at) (simp_all add: rhe_eval)
  then show ?thesis by (simp add: float_lit_def)
qed

lemma float_lit_5: "float_lit 5 = Fin 5"
proof -
  have "mk_float False 5 = Fin ((if False then - 1 else 1) * (of_int (5 * 2 ^ 50) / 2 ^ 50))"
    by (rule mk_float_at) (simp_all add: rhe_eval)
  then show ?thesis by (simp add: float_lit_def)
qed

lemma float_lit_8: "float_lit 8 = Fin 8"
proof -
  have "mk_float False 8 = Fin ((if False then - 1 else 1) * (of_int (2 ^ 52) / 2 ^ 49))"
    by (rule mk_float_at) (simp_all add: rhe_eval)
  then show ?thesis by (simp add: float_lit_def)
qed

lemma float_lit_10: "float_lit 10 = Fin 10"
proof -
  have "mk_float False 10 = Fin ((if False then - 1 else 1) * (of_int (5 * 2 ^ 50) / 2 ^ 49))"
    by (rule mk_float_at) (simp_all add: rhe_eval)
  then show ?thesis by (simp add: float_lit_def)
qed

lemma float_lit_14: "float_lit (14 / 10) = Fin (3152519739159347 / 2 ^ 51)"
proof -
  have "mk_float False (14 / 10) =
      Fin ((if False then - 1 else 1) * (of_int 6305039478318694 / 2 ^ 52))"
    by (rule mk_float_at) (simp_all add: rhe_eval)
  then show ?thesis by (simp add: float_lit_def)
qed

lemma float_lit_02: "float_lit (2 / 10) = Fin (3602879701896397 / 2 ^ 54)"
proof -
  have "mk_float False (2 / 10) =
      Fin ((if False then - 1 else 1) * (of_int 7205759403792794 / 2 ^ 55))"
    by (rule mk_float_at) (simp_all add: rhe_eval)
  then show ?thesis by (simp add: float_lit_def)
qed

lemma float_lit_085: "float_lit (85 / 100) = Fin (7656119366529843 / 2 ^ 53)"
proof -
  have "mk_float False (85 / 100) =
      Fin ((if False then - 1 else 1) * (of_int 7656119366529843 / 2 ^ 53))"
    by (rule mk_float_at) (simp_all add: rhe_eval)
  then show ?thesis by (simp add: float_lit_def)
qed

lemma float_lit_12: "float_lit (12 / 10) = Fin (5404319552844595 / 2 ^ 52)"
proof -
  have "mk_float False (12 / 10) =
      Fin ((if False then - 1 else 1) * (of_int 5404319552844595 / 2 ^ 52))"
    by (rule mk_float_at) (simp_all add: rhe_eval)
  then show ?thesis by (simp add: float_lit_def)
qed

lemma float_lit_reduced:
  "float_lit (7 / 5) = Fin (3152519739159347 / 2 ^ 51)"
  "float_lit (1 / 5) = Fin (3602879701896397 / 2 ^ 54)"
  "float_lit (17 / 20) = Fin (7656119366529843 / 2 ^ 53)"
  "float_lit (6 / 5) = Fin (5404319552844595 / 2 ^ 52)"
  using float_lit_14 float_lit_02 float_lit_085 float_lit_12 by simp_all

lemmas float_lits = float_lit_0 float_lit_1 float_lit_2 float_lit_5 float_lit_8 float_lit_10
  float_lit_14 float_lit_02 float_lit_085 float_lit_12 float_lit_reduced

subsection \<open>Arithmetic and order on floats\<close>

lemma mk_float_zero: "mk_float neg 0 = (if neg then NegZero else Fin 0)"
  by (simp add: mk_float_def round_mag_zero)

lemma mk_float_pos_cases:
  assumes "0 \<le> a"
  obtains "round_mag a = None" "mk_float False a = PInf"
  | r where "round_mag a = Some r" "0 \<le> r" "mk_float False a = Fin r"
proof (cases "round_mag a")
  case None
  then show ?thesis by (intro that(1)) (simp_all add: mk_float_def)
next
  case (Some r)
  moreover from round_mag_nonneg[OF assms Some] have "0 \<le> r" .
  moreover from Some have "mk_float False a = Fin r" by (simp add: mk_float_def)
  ultimately show ?thesis by (rule that(2))
qed

lemma mk_float_mono:
  assumes "0 \<le> a" "a \<le> b"
  shows "py_le (mk_float False a) (mk_float False b)"
proof -
  from assms have b0: "0 \<le> b" by simp
  show ?thesis
  proof (cases rule: mk_float_pos_cases[OF b0])
    case 1
    then show ?thesis
      by (cases rule: mk_float_pos_cases[OF assms(1)]) (simp_all add: py_le_def)
  next
    case (2 r')
    from round_mag_mono[OF assms(2) 2(1)] obtain r where "round_mag a = Some r" "r \<le> r'"
      by blast
    then have "mk_float False a = Fin r" by (simp add: mk_float_def)
    with 2(3) \<open>r \<le> r'\<close> show ?thesis by (simp add: py_le_def)
  qed
qed

lemma is_float_pos:
  assumes "is_float (Fin q)" "0 \<le> q"
  shows "mk_float False q = Fin q" "round_mag q = Some q"
proof -
  from assms show m: "mk_float False q = Fin q" by simp
  then show "round_mag q = Some q"
    by (cases "round_mag q") (auto simp: mk_float_def split: if_splits)
qed

lemma py_mul_one:
  assumes "is_float x"
  shows "py_mul x (Fin 1) = x"
proof (cases x)
  case (Fin q)
  with assms show ?thesis by (simp add: py_mul_def)
qed (simp_all add: py_mul_def mk_float_zero)

lemma py_truediv_2: "py_truediv x (Fin 2) =
    Inr (case x of NaN \<Rightarrow> NaN | PInf \<Rightarrow> PInf | NInf \<Rightarrow> NInf
         | NegZero \<Rightarrow> NegZero | Fin q \<Rightarrow> mk_float (q < 0) (\<bar>q\<bar> / 2))"
  by (cases x) (simp_all add: py_truediv_def mk_float_zero)

lemma mk_float_neg_not_gt: "0 \<le> a \<Longrightarrow> \<not> py_lt (Fin 1) (mk_float True a)"
  using round_mag_nonneg[of a]
  by (cases "round_mag a") (auto simp: mk_float_def)

lemma half_not_gt_one:
  assumes "py_le cf (Fin 2)" "py_truediv cf (Fin 2) = Inr half"
  shows "\<not> py_gt half (Fin 1)"
proof (cases cf)
  case (Fin q)
  with assms(1) have q: "q \<le> 2" by (simp add: py_le_def)
  from assms(2) Fin have h: "half = mk_float (q < 0) (\<bar>q\<bar> / 2)"
    by (simp add: py_truediv_2)
  show ?thesis
  proof (cases "q < 0")
    case True
    with h mk_float_neg_not_gt[of "\<bar>q\<bar> / 2"] show ?thesis by (simp add: py_gt_def)
  next
    case False
    with q have "0 \<le> q / 2" "q / 2 \<le> 1" by simp_all
    from mk_float_mono[OF this] have "py_le (mk_float False (q / 2)) (Fin 1)"
      using float_lit_1 by (simp add: float_lit_def)
    with h False show ?thesis by (simp add: py_gt_def py_le_def)
  qed
qed (use assms in \<open>auto simp: py_le_def py_gt_def py_truediv_2\<close>)

lemma fuel_multiplier_floor:
  assumes "py_le cf (Fin 2)" "py_truediv cf (Fin 2) = Inr half"
  shows "py_max (Fin 1) half = Fin 1"
  using half_not_gt_one[OF assms] by (simp add: py_max_def)

lemma py_mul_Fin_pos:
  assumes "0 < a" "0 < b" "d \<le> 1074" "d = 1074 \<or> 2 ^ 52 \<le> a * b * 2 ^ d"
    "a * b * 2 ^ d < 2 ^ 53" "round_half_even (a * b * 2 ^ d) = n" "0 < n"
  shows "py_mul (Fin a) (Fin b) = Fin (of_int n / 2 ^ d)"
proof -
  from assms(1,2) have "0 \<le> a * b" by simp
  from mk_float_at[OF this assms(3-7), of False] assms(1,2)
  show ?thesis by (simp add: py_mul_def abs_of_pos)
qed

lemma py_mul_ge:
  assumes "is_float x" "py_le (Fin 0) x" "1 \<le> r"
  shows "py_le x (py_mul x (Fin r))"
proof (cases x)
  case (Fin q)
  with assms(2) have q: "0 \<le> q" by (simp add: py_le_def)
  from assms(1) Fin q have "mk_float False q = Fin q" by simp
  moreover from q assms(3) have "q \<le> q * r" by (simp add: mult_le_cancel_left1)
  from mk_float_mono[OF q this] have "py_le (mk_float False q) (mk_float False (q * r))" .
  ultimately show ?thesis
    using Fin q assms(3) by (simp add: py_mul_def abs_of_nonneg)
qed (use assms in \<open>auto simp: py_le_def py_mul_def mk_float_zero\<close>)

lemma py_mul2_ge:
  assumes "is_float x" "py_le (Fin 0) x" "2 \<le> r1" "1 / 2 \<le> r2"
  shows "py_le x (py_mul (py_mul x (Fin r1)) (Fin r2))"
proof (cases x)
  case (Fin q)
  with assms(2) have q: "0 \<le> q" by (simp add: py_le_def)
  from assms(1) Fin q have fq: "mk_float False q = Fin q" "round_mag q = Some q"
    by (simp_all add: is_float_pos)
  from q assms(3) have qr: "0 \<le> q * r1" by simp
  have y: "py_mul (Fin q) (Fin r1) = mk_float False (q * r1)"
    using q assms(3) by (simp add: py_mul_def abs_of_nonneg)
  show ?thesis
  proof (cases rule: mk_float_pos_cases[OF qr])
    case 1
    with y Fin assms(4) show ?thesis by (simp add: py_mul_def py_le_def)
  next
    case (2 y')
    have "2 * q \<le> q * r1" using q assms(3) by (simp add: mult.commute mult_left_mono)
    from round_mag_mono[OF this 2(1)] obtain d where d: "round_mag (2 * q) = Some d" "d \<le> y'"
      by blast
    with round_mag_double[OF q fq(2)] have "2 * q \<le> y'" by simp
    moreover have "y' * (1 / 2) \<le> y' * r2"
      using assms(4) 2(2) by (intro mult_left_mono)
    ultimately have "q \<le> y' * r2" by simp
    from mk_float_mono[OF q this] fq(1) have "py_le (Fin q) (mk_float False (y' * r2))"
      by simp
    moreover have "py_mul (Fin y') (Fin r2) = mk_float False (y' * r2)"
      using 2(2) assms(4) by (simp add: py_mul_def abs_of_nonneg)
    ultimately show ?thesis using Fin y 2(3) by simp
  qed
qed (use assms in \<open>auto simp: py_le_def py_mul_def mk_float_zero\<close>)

lemma is_float_lit: "0 \<le> q \<Longrightarrow> is_float (float_lit q)"
proof -
  assume q: "0 \<le> q"
  show ?thesis
  proof (cases rule: mk_float_pos_cases[OF q])
    case 1
    with q show ?thesis by (simp add: float_lit_def)
  next
    case (2 r)
    from round_mag_idem[OF q 2(1)] 2(2) have "mk_float False r = Fin r"
      by (simp add: mk_float_def)
    with q 2 show ?thesis by (simp add: float_lit_def)
  qed
qed

subsection \<open>Representable values, overflow and underflow\<close>

lemma is_float_dyadic:
  assumes "0 \<le> n" "n < 2 ^ 53" "k \<le> 2045"
  shows "is_float (Fin (of_int n * 2 ^ k / 2 ^ 1074))"
    and "is_float (Fin (- (of_int n * 2 ^ k / 2 ^ 1074)))"
proof -
  define q :: rat where "q = of_int n * 2 ^ k / 2 ^ 1074"
  have q0: "0 \<le> q" using assms(1) by (simp add: q_def)
  have s: "q * 2 ^ 1074 = of_int n * 2 ^ k" by (simp add: q_def)
  have rs: "round_scaled (q * 2 ^ 1074) = n * 2 ^ k"
    unfolding s using assms by (rule round_scaled_grid)
  have "n * 2 ^ k < 2 ^ 53 * 2 ^ k" using assms(2) by simp
  moreover have "(2::int) ^ 53 * 2 ^ k \<le> 2 ^ 53 * 2 ^ 2045"
    using assms(3) by (intro mult_left_mono power_increasing) simp_all
  moreover have "(2::int) ^ 53 * 2 ^ 2045 = 2 ^ 2098" by (simp add: power_add[symmetric])
  ultimately have "\<not> 2 ^ 2098 \<le> n * 2 ^ k" by linarith
  then have r: "round_mag q = Some q"
    unfolding round_mag_def Let_def rs by (simp only: if_False q_def of_int_mult of_int_power of_int_numeral)
  show "is_float (Fin (of_int n * 2 ^ k / 2 ^ 1074))"
    using r q0 unfolding q_def[symmetric] by (simp add: mk_float_def)
  show "is_float (Fin (- (of_int n * 2 ^ k / 2 ^ 1074)))"
    using r q0 unfolding q_def[symmetric] by (simp add: mk_float_def)
qed

lemma round_mag_overflow:
  assumes "2 ^ 1024 - 2 ^ 970 \<le> a"
  shows "round_mag a = None"
proof -
  define k :: nat where "k = 2045"
  define s where "s = a * 2 ^ 1074"
  have k1: "(2::rat) ^ 1024 * 2 ^ 1074 = 2 ^ 53 * 2 ^ k"
    and k2: "(2::rat) ^ 970 * 2 ^ 1074 = 2 ^ k / 2"
    by (simp_all add: k_def)
  have "(2 ^ 1024 - 2 ^ 970) * 2 ^ 1074 \<le> s"
    unfolding s_def using assms
    by (simp only: mult_le_cancel_right_pos zero_less_power zero_less_numeral)
  then have lo: "(2 ^ 53 - 1 / 2) * 2 ^ k \<le> s"
    by (simp only: left_diff_distrib k1 k2 times_divide_eq_left mult_1)
  have "(2::rat) ^ (k + 52) \<le> (2 ^ 53 - 1 / 2) * 2 ^ k"
    by (simp add: power_add)
  with lo have "2 ^ (k + 52) \<le> s" by (rule order_trans[rotated])
  then have "k \<le> ulp_exp s" by (rule ulp_exp_greatest) (simp add: k_def)
  with ulp_exp_le[of s] have j: "ulp_exp s = k" by (simp add: k_def)
  from lo have "2 ^ 53 - 1 / 2 \<le> s / 2 ^ k" by (simp add: field_simps)
  from round_half_even_mono[OF this] have "2 ^ 53 \<le> round_half_even (s / 2 ^ k)"
    by (simp add: rhe_eval)
  then have "2 ^ 53 * 2 ^ k \<le> round_scaled s"
    by (simp add: round_scaled_def j)
  moreover have "(2::int) ^ 53 * 2 ^ k = 2 ^ 2098" by (simp add: k_def)
  ultimately have "2 ^ 2098 \<le> round_scaled s" by (simp only:)
  then show ?thesis
    unfolding round_mag_def Let_def s_def[symmetric] by (simp only: if_True)
qed

lemma mk_float_overflow: "2 ^ 1024 - 2 ^ 970 \<le> a \<Longrightarrow> mk_float False a = PInf"
  by (simp add: mk_float_def round_mag_overflow)

lemma largest_float: "is_float (Fin ((2 ^ 53 - 1) * 2 ^ 971))"
proof -
  have "is_float (Fin (of_int (2 ^ 53 - 1) * 2 ^ 2045 / 2 ^ 1074))"
    by (rule is_float_dyadic) simp_all
  moreover have "(of_int (2 ^ 53 - 1) :: rat) * 2 ^ 2045 / 2 ^ 1074 = (2 ^ 53 - 1) * 2 ^ 971"
    by simp
  ultimately show ?thesis by (simp only:)
qed

lemma underflow_to_zero: "a \<le> 1 / 2 ^ 1075 \<Longrightarrow> 0 \<le> a \<Longrightarrow> mk_float False a = Fin 0"
proof -
  assume a: "a \<le> 1 / 2 ^ 1075" "0 \<le> a"
  have "round_mag (1 / 2 ^ 1075) = Some (of_int (round_half_even (1 / 2 ^ 1075 * 2 ^ 1074)) / 2 ^ 1074)"
    by (rule round_mag_at) simp_all
  moreover have "(1::rat) / 2 ^ 1075 * 2 ^ 1074 = 1 / 2" by simp
  ultimately have "round_mag (1 / 2 ^ 1075) = Some 0"
    by (simp only: rhe_eval round_half_even_divide[of 2 1, simplified]) (simp add: rhe_eval)
  from round_mag_mono[OF a(1) this] obtain r where "round_mag a = Some r" "r \<le> 0" by blast
  with round_mag_nonneg[OF a(2)] show ?thesis by (simp add: mk_float_def)
qed

section \<open>The pipeline\<close>

lemma car_index:
  "dict_index VEHICLE_FACTORS ''car'' =
     Inr \<lparr>weight = 1200, co2_factor = float_lit 1, energy_mode = ''fuel''\<rparr>"
  by (simp add: dict_index_def VEHICLE_FACTORS_def)

lemma resolve_vehicle_get:
  "resolve_vehicle name =
     Inr (dict_get VEHICLE_FACTORS name
            \<lparr>weight = 1200, co2_factor = float_lit 1, energy_mode = ''fuel''\<rparr>)"
  by (simp add: resolve_vehicle_def car_index)

lemma resolve_vehicle_unknown:
  assumes "name \<notin> set (map fst VEHICLE_FACTORS)"
  shows "resolve_vehicle name =
     Inr \<lparr>weight = 1200, co2_factor = float_lit 1, energy_mode = ''fuel''\<rparr>"
proof -
  from assms have "map_of VEHICLE_FACTORS name = None"
    by (simp add: map_of_eq_None_iff)
  then show ?thesis by (simp add: resolve_vehicle_get dict_get_def)
qed

lemma resolve_vehicle_registry:
  assumes "(name, v) \<in> set VEHICLE_FACTORS"
  shows "resolve_vehicle name = Inr v"
proof -
  have "distinct (map fst VEHICLE_FACTORS)" by (simp add: VEHICLE_FACTORS_def)
  with assms have "map_of VEHICLE_FACTORS name = Some v" by simp
  then show ?thesis by (simp add: resolve_vehicle_get dict_get_def)
qed

lemma scale_emissions_eq:
  "scale_emissions v raw =
     Inr (py_mul (fst raw)
            (py_max (float_lit 1)
               (case co2_factor v of NaN \<Rightarrow> NaN | PInf \<Rightarrow> PInf | NInf \<Rightarrow> NInf
                | NegZero \<Rightarrow> NegZero | Fin q \<Rightarrow> mk_float (q < 0) (\<bar>q\<bar> / 2))),
          py_mul (snd raw) (co2_factor v))"
  by (simp add: scale_emissions_def float_lit_2 py_truediv_2 Let_def)

lemma scale_emissions_half:
  assumes "py_truediv (co2_factor v) (float_lit 2) = Inr half"
  shows "scale_emissions v raw =
     Inr (py_mul (fst raw) (py_max (float_lit 1) half), py_mul (snd raw) (co2_factor v))"
  using assms by (simp add: scale_emissions_def Let_def)

lemma predict_resolved:
  assumes "resolve_vehicle (vehicle feat) = Inr v"
  shows "predict model feat = adjust v feat (model (build_X feat v))"
  using assms by (simp add: predict_def)

text \<open>
  C2. On the electric path the result is \<open>fuel_l = 0.0\<close>,
  \<open>energy_kwh = distance_km * 0.2\<close> and \<open>co2_kg = co2_kg_raw * co2_factor\<close>, for every
  profile whose energy mode is electric, every raw output and every input, ships and eco
  or safe routes included: the ship adjustment is never applied.
\<close>

theorem electric_short_circuit:
  assumes "energy_mode v = ''electric''"
  shows "adjust v feat (fuel_raw, co2_raw) =
           Inr \<lparr>fuel_l = float_lit 0,
                energy_kwh = Some (py_mul (distance_km feat) (float_lit (2 / 10))),
                co2_kg = py_mul co2_raw (co2_factor v)\<rparr>
       \<and> (resolve_vehicle (vehicle feat) = Inr v \<longrightarrow>
            predict model feat =
              Inr \<lparr>fuel_l = float_lit 0,
                   energy_kwh = Some (py_mul (distance_km feat) (float_lit (2 / 10))),
                   co2_kg = py_mul (snd (model (build_X feat v))) (co2_factor v)\<rparr>)"
proof -
  have a: "adjust v feat raw =
      Inr \<lparr>fuel_l = float_lit 0,
           energy_kwh = Some (py_mul (distance_km feat) (float_lit (2 / 10))),
           co2_kg = py_mul (snd raw) (co2_factor v)\<rparr>" for raw
    using assms by (simp add: adjust_def scale_emissions_eq)
  show ?thesis
    using a[of "(fuel_raw, co2_raw)"] a[of "model (build_X feat v)"]
    by (simp add: predict_resolved)
qed

theorem electric_short_circuit_witness:
  "energy_mode \<lparr>weight = 1800, co2_factor = float_lit 0, energy_mode = ''electric''\<rparr> = ''electric''
   \<and> resolve_vehicle ''ev'' =
       Inr \<lparr>weight = 1800, co2_factor = float_lit 0, energy_mode = ''electric''\<rparr>
   \<and> predict (\<lambda>X. (Fin 7, Fin 3))
        \<lparr>distance_km = Fin 50, elevation_gain_m = Fin 0, avg_speed_kph = Fin 50, turns = 0,
         humps = 0, weight_kg = Fin 1000, traffic_index = Fin 1, route_type = ''eco'',
         vehicle = ''ev''\<rparr>
     = Inr \<lparr>fuel_l = Fin 0, energy_kwh = Some (Fin 10), co2_kg = Fin 0\<rparr>"
proof -
  have r: "resolve_vehicle ''ev'' =
      Inr \<lparr>weight = 1800, co2_factor = float_lit 0, energy_mode = ''electric''\<rparr>"
    by (rule resolve_vehicle_registry) (simp add: VEHICLE_FACTORS_def)
  have "py_mul (Fin 50) (Fin (3602879701896397 / 2 ^ 54)) = Fin (of_int (10 * 2 ^ 49) / 2 ^ 49)"
    by (rule py_mul_Fin_pos) (simp_all add: rhe_eval)
  then have e: "py_mul (Fin 50) (Fin (3602879701896397 / 18014398509481984)) = Fin 10"
    by simp
  have c: "py_mul (Fin 3) (Fin 0) = Fin 0"
    by (simp add: py_mul_def mk_float_zero)
  show ?thesis
    using electric_short_circuit[of "\<lparr>weight = 1800, co2_factor = float_lit 0, energy_mode = ''electric''\<rparr>"
        "\<lparr>distance_km = Fin 50, elevation_gain_m = Fin 0, avg_speed_kph = Fin 50, turns = 0,
         humps = 0, weight_kg = Fin 1000, traffic_index = Fin 1, route_type = ''eco'',
         vehicle = ''ev''\<rparr>" "Fin 7" "Fin 3" "\<lambda>X. (Fin 7, Fin 3)"]
    by (simp add: r float_lits e c)
qed

text \<open>
  C5. Profile lookup returns the table's profile for each of the seven identifiers and
  the car profile for every other string; the route code is 0, 1, 2 for fast, eco, safe
  and 0 for every other string; neither is ever an error.
\<close>

theorem lookup_never_fails:
  "resolve_vehicle ''car'' =
     Inr \<lparr>weight = 1200, co2_factor = float_lit 1, energy_mode = ''fuel''\<rparr>
   \<and> resolve_vehicle ''van'' =
     Inr \<lparr>weight = 2500, co2_factor = float_lit (14 / 10), energy_mode = ''fuel''\<rparr>
   \<and> resolve_vehicle ''bike'' =
     Inr \<lparr>weight = 200, co2_factor = float_lit (2 / 10), energy_mode = ''fuel''\<rparr>
   \<and> resolve_vehicle ''ev'' =
     Inr \<lparr>weight = 1800, co2_factor = float_lit 0, energy_mode = ''electric''\<rparr>
   \<and> resolve_vehicle ''cargo_ship'' =
     Inr \<lparr>weight = 500000, co2_factor = float_lit 8, energy_mode = ''fuel''\<rparr>
   \<and> resolve_vehicle ''tanker'' =
     Inr \<lparr>weight = 700000, co2_factor = float_lit 10, energy_mode = ''fuel''\<rparr>
   \<and> resolve_vehicle ''ferry'' =
     Inr \<lparr>weight = 100000, co2_factor = float_lit 5, energy_mode = ''fuel''\<rparr>
   \<and> (\<forall>name. name \<notin> set [''car'', ''van'', ''bike'', ''ev'', ''cargo_ship'', ''tanker'', ''ferry'']
        \<longrightarrow> resolve_vehicle name =
          Inr \<lparr>weight = 1200, co2_factor = float_lit 1, energy_mode = ''fuel''\<rparr>)
   \<and> (\<forall>name. \<exists>v. resolve_vehicle name = Inr v)
   \<and> route_type_val ''fast'' = 0 \<and> route_type_val ''eco'' = 1 \<and> route_type_val ''safe'' = 2
   \<and> (\<forall>rt. rt \<notin> set [''fast'', ''eco'', ''safe''] \<longrightarrow> route_type_val rt = 0)"
proof -
  have known: "resolve_vehicle name = Inr v" if "(name, v) \<in> set VEHICLE_FACTORS" for name v
    using that by (rule resolve_vehicle_registry)
  have unknown: "\<forall>name. name \<notin> set [''car'', ''van'', ''bike'', ''ev'', ''cargo_ship'', ''tanker'', ''ferry'']
      \<longrightarrow> resolve_vehicle name =
        Inr \<lparr>weight = 1200, co2_factor = float_lit 1, energy_mode = ''fuel''\<rparr>"
    by (intro allI impI resolve_vehicle_unknown) (simp add: VEHICLE_FACTORS_def)
  have total: "\<forall>name. \<exists>v. resolve_vehicle name = Inr v"
    by (simp add: resolve_vehicle_get)
  have route: "\<forall>rt. rt \<notin> set [''fast'', ''eco'', ''safe''] \<longrightarrow> route_type_val rt = 0"
    by (simp add: route_type_val_def route_map_def dict_get_def)
  have codes: "route_type_val ''fast'' = 0" "route_type_val ''eco'' = 1"
    "route_type_val ''safe'' = 2"
    by (simp_all add: route_type_val_def route_map_def dict_get_def)
  show ?thesis
    by (intro conjI unknown total route codes known) (simp_all add: VEHICLE_FACTORS_def)
qed

theorem lookup_never_fails_witness:
  "''truck'' \<notin> set [''car'', ''van'', ''bike'', ''ev'', ''cargo_ship'', ''tanker'', ''ferry'']
   \<and> resolve_vehicle ''truck'' =
       Inr \<lparr>weight = 1200, co2_factor = float_lit 1, energy_mode = ''fuel''\<rparr>
   \<and> ''scenic'' \<notin> set [''fast'', ''eco'', ''safe'']
   \<and> route_type_val ''scenic'' = 0"
  using lookup_never_fails by simp

text \<open>
  C6. The row handed to the regressor has the eight entries distance, elevation gain,
  average speed, turns, humps, the profile's weight, traffic index, route code, in this
  order; entry 5 is the resolved profile's weight, and the caller's \<open>weight_kg\<close> has no
  effect on the row or on the prediction.
\<close>

theorem regressor_input_row:
  assumes "resolve_vehicle (vehicle feat) = Inr v"
  shows "predict model feat =
           adjust v feat
             (model [PyFloat (distance_km feat), PyFloat (elevation_gain_m feat),
                     PyFloat (avg_speed_kph feat), PyInt (turns feat), PyInt (humps feat),
                     PyInt (weight v), PyFloat (traffic_index feat),
                     PyInt (route_type_val (route_type feat))])
       \<and> length (build_X feat v) = 8
       \<and> build_X feat v ! 5 = PyInt (weight v)
       \<and> build_X (feat\<lparr>weight_kg := w\<rparr>) v = build_X feat v
       \<and> predict model (feat\<lparr>weight_kg := w\<rparr>) = predict model feat"
proof -
  have "adjust v (feat\<lparr>weight_kg := w\<rparr>) raw = adjust v feat raw" for raw
    by (simp add: adjust_def ship_adjust_def scale_emissions_eq)
  then show ?thesis
    using assms by (simp add: predict_def build_X_def)
qed

theorem regressor_input_row_witness:
  "resolve_vehicle ''van'' =
     Inr \<lparr>weight = 2500, co2_factor = float_lit (14 / 10), energy_mode = ''fuel''\<rparr>
   \<and> build_X \<lparr>distance_km = Fin 12, elevation_gain_m = Fin 30, avg_speed_kph = Fin 50,
              turns = 4, humps = 2, weight_kg = Fin 9999, traffic_index = Fin 1,
              route_type = ''safe'', vehicle = ''van''\<rparr>
        \<lparr>weight = 2500, co2_factor = float_lit (14 / 10), energy_mode = ''fuel''\<rparr>
     = [PyFloat (Fin 12), PyFloat (Fin 30), PyFloat (Fin 50), PyInt 4, PyInt 2, PyInt 2500,
        PyFloat (Fin 1), PyInt 2]
   \<and> build_X \<lparr>distance_km = Fin 12, elevation_gain_m = Fin 30, avg_speed_kph = Fin 50,
              turns = 4, humps = 2, weight_kg = Fin 9999, traffic_index = Fin 1,
              route_type = ''safe'', vehicle = ''van''\<rparr>
        \<lparr>weight = 2500, co2_factor = float_lit (14 / 10), energy_mode = ''fuel''\<rparr> ! 5
     = PyInt 2500"
proof -
  have r: "resolve_vehicle ''van'' =
      Inr \<lparr>weight = 2500, co2_factor = float_lit (14 / 10), energy_mode = ''fuel''\<rparr>"
    by (rule resolve_vehicle_registry) (simp add: VEHICLE_FACTORS_def)
  show ?thesis
    using regressor_input_row[of
        "\<lparr>distance_km = Fin 12, elevation_gain_m = Fin 30, avg_speed_kph = Fin 50,
          turns = 4, humps = 2, weight_kg = Fin 9999, traffic_index = Fin 1,
          route_type = ''safe'', vehicle = ''van''\<rparr>"
        "\<lparr>weight = 2500, co2_factor = float_lit (14 / 10), energy_mode = ''fuel''\<rparr>"]
    by (simp add: r build_X_def route_type_val_def route_map_def dict_get_def)
qed

text \<open>
  C7. For every input record and every regressor that returns its pair of floats,
  \<open>predict\<close> raises nothing and returns a result.
\<close>

theorem predict_never_raises: "\<exists>r. predict model feat = Inr r"
  by (simp add: predict_def resolve_vehicle_get adjust_def scale_emissions_eq Let_def)

text \<open>
  C8. The trainer's vehicle table and route table are the tables of the service: the same
  seven keys with the same weight, CO2 factor and energy mode, and the same route codes.
\<close>

theorem trainer_tables_agree:
  "train_VEHICLE_FACTORS = VEHICLE_FACTORS
   \<and> map fst train_VEHICLE_FACTORS =
       [''car'', ''van'', ''bike'', ''ev'', ''cargo_ship'', ''tanker'', ''ferry'']
   \<and> map_of train_VEHICLE_FACTORS = map_of VEHICLE_FACTORS
   \<and> ROUTE_TYPES = route_map
   \<and> map_of ROUTE_TYPES = map_of route_map"
  by (simp add: train_VEHICLE_FACTORS_def VEHICLE_FACTORS_def ROUTE_TYPES_def route_map_def)

text \<open>
  C9. An input whose vehicle string is none of the seven registry keys gets the result of
  the same input with vehicle \<open>car\<close>, whatever the regressor returns.
\<close>

theorem unknown_vehicle_as_car:
  assumes "vehicle feat \<notin> set [''car'', ''van'', ''bike'', ''ev'', ''cargo_ship'', ''tanker'', ''ferry'']"
  shows "predict model feat = predict model (feat\<lparr>vehicle := ''car''\<rparr>)"
proof -
  from assms have "resolve_vehicle (vehicle feat) =
      Inr \<lparr>weight = 1200, co2_factor = float_lit 1, energy_mode = ''fuel''\<rparr>"
    by (intro resolve_vehicle_unknown) (simp add: VEHICLE_FACTORS_def)
  moreover have "resolve_vehicle ''car'' =
      Inr \<lparr>weight = 1200, co2_factor = float_lit 1, energy_mode = ''fuel''\<rparr>"
    by (rule resolve_vehicle_registry) (simp add: VEHICLE_FACTORS_def)
  ultimately show ?thesis
    using assms
    by (simp add: predict_def build_X_def adjust_def ship_adjust_def scale_emissions_eq)
qed

theorem unknown_vehicle_as_car_witness:
  "''truck'' \<notin> set [''car'', ''van'', ''bike'', ''ev'', ''cargo_ship'', ''tanker'', ''ferry'']
   \<and> predict (\<lambda>X. (Fin 7, Fin 3))
        \<lparr>distance_km = Fin 12, elevation_gain_m = Fin 30, avg_speed_kph = Fin 50,
         turns = 4, humps = 2, weight_kg = Fin 1000, traffic_index = Fin 1,
         route_type = ''eco'', vehicle = ''truck''\<rparr>
     = predict (\<lambda>X. (Fin 7, Fin 3))
        \<lparr>distance_km = Fin 12, elevation_gain_m = Fin 30, avg_speed_kph = Fin 50,
         turns = 4, humps = 2, weight_kg = Fin 1000, traffic_index = Fin 1,
         route_type = ''eco'', vehicle = ''car''\<rparr>"
  using unknown_vehicle_as_car[of
      "\<lparr>distance_km = Fin 12, elevation_gain_m = Fin 30, avg_speed_kph = Fin 50,
        turns = 4, humps = 2, weight_kg = Fin 1000, traffic_index = Fin 1,
        route_type = ''eco'', vehicle = ''truck''\<rparr>" "\<lambda>X. (Fin 7, Fin 3)"]
  by simp

text \<open>
  C1. For every profile, input and raw pair the division \<open>co2_factor / 2.0\<close> returns a
  value \<open>half\<close>, and the adjustment works on \<open>co2 = co2_kg_raw * co2_factor\<close> and
  \<open>fuel = fuel_l_raw * max(1.0, half)\<close>: these are the output of the scaling step, the
  values \<open>adjust\<close> returns (CO2 on the electric path, both through the ship adjustment
  otherwise, unchanged for a vehicle that is no ship), and the values \<open>predict\<close> returns
  for the regressor's pair. When
  \<open>co2_factor \<le> 2.0\<close> the multiplier is exactly \<open>1.0\<close>, the scaled fuel is the raw fuel,
  and the ship adjustment is applied to the raw fuel itself.
\<close>

theorem scaling_step:
  "\<exists>half. py_truediv (co2_factor v) (float_lit 2) = Inr half \<and>
     (let fuel = py_mul fuel_raw (py_max (float_lit 1) half);
          co2 = py_mul co2_raw (co2_factor v);
          res = (if energy_mode v = ''electric''
                 then \<lparr>fuel_l = float_lit 0,
                       energy_kwh = Some (py_mul (distance_km feat) (float_lit (2 / 10))),
                       co2_kg = co2\<rparr>
                 else \<lparr>fuel_l = fst (ship_adjust feat (fuel, co2)), energy_kwh = None,
                       co2_kg = snd (ship_adjust feat (fuel, co2))\<rparr>)
      in scale_emissions v (fuel_raw, co2_raw) = Inr (fuel, co2)
       \<and> adjust v feat (fuel_raw, co2_raw) = Inr res
       \<and> (resolve_vehicle (vehicle feat) = Inr v \<and> model (build_X feat v) = (fuel_raw, co2_raw)
            \<longrightarrow> predict model feat = Inr res)
       \<and> (energy_mode v \<noteq> ''electric''
            \<and> vehicle feat \<notin> set [''cargo_ship'', ''tanker'', ''ferry''] \<longrightarrow>
            adjust v feat (fuel_raw, co2_raw) =
              Inr \<lparr>fuel_l = fuel, energy_kwh = None, co2_kg = co2\<rparr>)
       \<and> (py_le (co2_factor v) (float_lit 2) \<longrightarrow>
            py_max (float_lit 1) half = float_lit 1
            \<and> (is_float fuel_raw \<longrightarrow>
                 fuel = fuel_raw
                 \<and> (energy_mode v \<noteq> ''electric'' \<longrightarrow>
                      adjust v feat (fuel_raw, co2_raw) =
                        Inr \<lparr>fuel_l = fst (ship_adjust feat (fuel_raw, co2)), energy_kwh = None,
                             co2_kg = snd (ship_adjust feat (fuel_raw, co2))\<rparr>))))"
proof -
  obtain half where h: "py_truediv (co2_factor v) (float_lit 2) = Inr half"
    by (simp add: float_lit_2 py_truediv_2)
  define fuel where "fuel = py_mul fuel_raw (py_max (float_lit 1) half)"
  define co2 where "co2 = py_mul co2_raw (co2_factor v)"
  define res where "res =
    (if energy_mode v = ''electric''
     then \<lparr>fuel_l = float_lit 0,
           energy_kwh = Some (py_mul (distance_km feat) (float_lit (2 / 10))),
           co2_kg = co2\<rparr>
     else \<lparr>fuel_l = fst (ship_adjust feat (fuel, co2)), energy_kwh = None,
           co2_kg = snd (ship_adjust feat (fuel, co2))\<rparr>)"
  have s: "scale_emissions v (fuel_raw, co2_raw) = Inr (fuel, co2)"
    using scale_emissions_half[OF h, of "(fuel_raw, co2_raw)"] by (simp add: fuel_def co2_def)
  have a: "adjust v feat (fuel_raw, co2_raw) = Inr res"
    by (simp add: adjust_def s res_def Let_def)
  have p: "predict model feat = Inr res"
    if "resolve_vehicle (vehicle feat) = Inr v \<and> model (build_X feat v) = (fuel_raw, co2_raw)"
    using that a by (simp add: predict_def)
  have l: "adjust v feat (fuel_raw, co2_raw) =
      Inr \<lparr>fuel_l = fuel, energy_kwh = None, co2_kg = co2\<rparr>"
    if "energy_mode v \<noteq> ''electric''
      \<and> vehicle feat \<notin> set [''cargo_ship'', ''tanker'', ''ferry'']"
    using a that by (simp add: res_def ship_adjust_def)
  have m: "py_max (float_lit 1) half = float_lit 1" if "py_le (co2_factor v) (float_lit 2)"
    using fuel_multiplier_floor[of "co2_factor v" half] that h by (simp add: float_lits)
  have f: "fuel = fuel_raw" if "py_le (co2_factor v) (float_lit 2)" "is_float fuel_raw"
    using m[OF that(1)] that(2) by (simp add: fuel_def float_lit_1 py_mul_one)
  have k: "adjust v feat (fuel_raw, co2_raw) =
      Inr \<lparr>fuel_l = fst (ship_adjust feat (fuel_raw, co2)), energy_kwh = None,
           co2_kg = snd (ship_adjust feat (fuel_raw, co2))\<rparr>"
    if "py_le (co2_factor v) (float_lit 2)" "is_float fuel_raw" "energy_mode v \<noteq> ''electric''"
    using a f[OF that(1,2)] that(3) by (simp add: res_def)
  show ?thesis
  proof (rule exI[of _ half])
    show "py_truediv (co2_factor v) (float_lit 2) = Inr half \<and>
     (let fuel = py_mul fuel_raw (py_max (float_lit 1) half);
          co2 = py_mul co2_raw (co2_factor v);
          res = (if energy_mode v = ''electric''
                 then \<lparr>fuel_l = float_lit 0,
                       energy_kwh = Some (py_mul (distance_km feat) (float_lit (2 / 10))),
                       co2_kg = co2\<rparr>
                 else \<lparr>fuel_l = fst (ship_adjust feat (fuel, co2)), energy_kwh = None,
                       co2_kg = snd (ship_adjust feat (fuel, co2))\<rparr>)
      in scale_emissions v (fuel_raw, co2_raw) = Inr (fuel, co2)
       \<and> adjust v feat (fuel_raw, co2_raw) = Inr res
       \<and> (resolve_vehicle (vehicle feat) = Inr v \<and> model (build_X feat v) = (fuel_raw, co2_raw)
            \<longrightarrow> predict model feat = Inr res)
       \<and> (energy_mode v \<noteq> ''electric''
            \<and> vehicle feat \<notin> set [''cargo_ship'', ''tanker'', ''ferry''] \<longrightarrow>
            adjust v feat (fuel_raw, co2_raw) =
              Inr \<lparr>fuel_l = fuel, energy_kwh = None, co2_kg = co2\<rparr>)
       \<and> (py_le (co2_factor v) (float_lit 2) \<longrightarrow>
            py_max (float_lit 1) half = float_lit 1
            \<and> (is_float fuel_raw \<longrightarrow>
                 fuel = fuel_raw
                 \<and> (energy_mode v \<noteq> ''electric'' \<longrightarrow>
                      adjust v feat (fuel_raw, co2_raw) =
                        Inr \<lparr>fuel_l = fst (ship_adjust feat (fuel_raw, co2)), energy_kwh = None,
                             co2_kg = snd (ship_adjust feat (fuel_raw, co2))\<rparr>))))"
      unfolding Let_def fuel_def[symmetric] co2_def[symmetric]
      unfolding res_def[symmetric]
      using h s a p l m f k by blast
  qed
qed

theorem scaling_step_witness:
  "py_le (float_lit (14 / 10)) (float_lit 2) \<and> is_float (float_lit 10)
   \<and> resolve_vehicle ''van'' =
       Inr \<lparr>weight = 2500, co2_factor = float_lit (14 / 10), energy_mode = ''fuel''\<rparr>
   \<and> predict (\<lambda>X. (float_lit 10, float_lit 5))
        \<lparr>distance_km = float_lit 12, elevation_gain_m = float_lit 0,
         avg_speed_kph = float_lit 50, turns = 0, humps = 0, weight_kg = float_lit 1000,
         traffic_index = float_lit 1, route_type = ''eco'', vehicle = ''van''\<rparr>
     = Inr \<lparr>fuel_l = float_lit 10, energy_kwh = None, co2_kg = float_lit 7\<rparr>"
proof -
  have le: "py_le (float_lit (14 / 10)) (float_lit 2)"
    by (simp add: float_lits py_le_def)
  have fl: "is_float (float_lit 10)"
    by (rule is_float_lit) simp
  have r: "resolve_vehicle ''van'' =
      Inr \<lparr>weight = 2500, co2_factor = float_lit (14 / 10), energy_mode = ''fuel''\<rparr>"
    by (rule resolve_vehicle_registry) (simp add: VEHICLE_FACTORS_def)
  have "py_mul (Fin 5) (Fin (3152519739159347 / 2 ^ 51)) = Fin (of_int (7 * 2 ^ 50) / 2 ^ 50)"
    by (rule py_mul_Fin_pos) (simp_all add: rhe_eval)
  moreover have "float_lit 7 = Fin 7"
    using mk_float_at[of 7 50 "7 * 2 ^ 50" False] by (simp add: rhe_eval float_lit_def)
  ultimately have z: "py_mul (float_lit 5) (float_lit (14 / 10)) = float_lit 7"
    by (simp add: float_lits)
  have z': "py_mul (float_lit 5) (float_lit (7 / 5)) = float_lit 7"
    using z by simp
  show ?thesis
    using scaling_step[of "\<lparr>weight = 2500, co2_factor = float_lit (14 / 10), energy_mode = ''fuel''\<rparr>"
      "float_lit 10" "float_lit 5"
      "\<lparr>distance_km = float_lit 12, elevation_gain_m = float_lit 0,
        avg_speed_kph = float_lit 50, turns = 0, humps = 0, weight_kg = float_lit 1000,
        traffic_index = float_lit 1, route_type = ''eco'', vehicle = ''van''\<rparr>"
      "\<lambda>X. (float_lit 10, float_lit 5)"] le fl r
    by (clarsimp simp: Let_def ship_adjust_def z')
qed

lemma adjust_fuel_mode:
  assumes "energy_mode v \<noteq> ''electric''" "scale_emissions v raw = Inr scaled"
  shows "adjust v feat raw =
     Inr \<lparr>fuel_l = fst (ship_adjust feat scaled), energy_kwh = None,
          co2_kg = snd (ship_adjust feat scaled)\<rparr>"
  using assms by (simp add: adjust_def Let_def)

lemma ship_profile_fuel_mode:
  assumes "vehicle feat \<in> set [''cargo_ship'', ''tanker'', ''ferry'']"
    "resolve_vehicle (vehicle feat) = Inr v"
  shows "energy_mode v = ''fuel''"
proof -
  have "resolve_vehicle ''cargo_ship'' =
      Inr \<lparr>weight = 500000, co2_factor = float_lit 8, energy_mode = ''fuel''\<rparr>"
    "resolve_vehicle ''tanker'' =
      Inr \<lparr>weight = 700000, co2_factor = float_lit 10, energy_mode = ''fuel''\<rparr>"
    "resolve_vehicle ''ferry'' =
      Inr \<lparr>weight = 100000, co2_factor = float_lit 5, energy_mode = ''fuel''\<rparr>"
    by (rule resolve_vehicle_registry, simp add: VEHICLE_FACTORS_def)+
  with assms show ?thesis by auto
qed

text \<open>
  C3. With \<open>fuel\<close> and \<open>co2\<close> the values right after the scaling step: for a ship
  (\<open>cargo_ship\<close>, \<open>tanker\<close>, \<open>ferry\<close>) the result is both values times \<open>0.85\<close> on route
  \<open>eco\<close>, both times \<open>1.2\<close> on route \<open>safe\<close>, and both unchanged on any other route
  string; for every other vehicle the result carries the scaled values unchanged, whatever
  the route.
\<close>

theorem route_post_scaling:
  assumes "resolve_vehicle (vehicle feat) = Inr v"
    and "scale_emissions v (model (build_X feat v)) = Inr (fuel, co2)"
  shows "(vehicle feat \<in> set [''cargo_ship'', ''tanker'', ''ferry''] \<and> route_type feat = ''eco'' \<longrightarrow>
            predict model feat =
              Inr \<lparr>fuel_l = py_mul fuel (float_lit (85 / 100)), energy_kwh = None,
                   co2_kg = py_mul co2 (float_lit (85 / 100))\<rparr>)
       \<and> (vehicle feat \<in> set [''cargo_ship'', ''tanker'', ''ferry''] \<and> route_type feat = ''safe'' \<longrightarrow>
            predict model feat =
              Inr \<lparr>fuel_l = py_mul fuel (float_lit (12 / 10)), energy_kwh = None,
                   co2_kg = py_mul co2 (float_lit (12 / 10))\<rparr>)
       \<and> (vehicle feat \<in> set [''cargo_ship'', ''tanker'', ''ferry'']
            \<and> route_type feat \<notin> set [''eco'', ''safe''] \<longrightarrow>
            predict model feat = Inr \<lparr>fuel_l = fuel, energy_kwh = None, co2_kg = co2\<rparr>)
       \<and> (vehicle feat \<notin> set [''cargo_ship'', ''tanker'', ''ferry''] \<longrightarrow>
            predict model feat =
              Inr (if energy_mode v = ''electric''
                   then \<lparr>fuel_l = float_lit 0,
                         energy_kwh = Some (py_mul (distance_km feat) (float_lit (2 / 10))),
                         co2_kg = co2\<rparr>
                   else \<lparr>fuel_l = fuel, energy_kwh = None, co2_kg = co2\<rparr>))"
proof -
  have p: "predict model feat = adjust v feat (model (build_X feat v))"
    using assms(1) by (rule predict_resolved)
  have ship: "predict model feat =
      Inr \<lparr>fuel_l = fst (ship_adjust feat (fuel, co2)), energy_kwh = None,
           co2_kg = snd (ship_adjust feat (fuel, co2))\<rparr>"
    if "vehicle feat \<in> set [''cargo_ship'', ''tanker'', ''ferry'']"
  proof -
    from ship_profile_fuel_mode[OF that assms(1)] have "energy_mode v \<noteq> ''electric''" by simp
    from adjust_fuel_mode[OF this assms(2)] p show ?thesis by simp
  qed
  have land: "predict model feat =
      Inr (if energy_mode v = ''electric''
           then \<lparr>fuel_l = float_lit 0,
                 energy_kwh = Some (py_mul (distance_km feat) (float_lit (2 / 10))),
                 co2_kg = co2\<rparr>
           else \<lparr>fuel_l = fuel, energy_kwh = None, co2_kg = co2\<rparr>)"
    if "vehicle feat \<notin> set [''cargo_ship'', ''tanker'', ''ferry'']"
    using that assms(2) p by (simp add: adjust_def ship_adjust_def)
  show ?thesis
  proof (intro conjI impI)
    assume "vehicle feat \<in> set [''cargo_ship'', ''tanker'', ''ferry''] \<and> route_type feat = ''eco''"
    with ship show "predict model feat =
        Inr \<lparr>fuel_l = py_mul fuel (float_lit (85 / 100)), energy_kwh = None,
             co2_kg = py_mul co2 (float_lit (85 / 100))\<rparr>"
      by (simp add: ship_adjust_def)
  next
    assume "vehicle feat \<in> set [''cargo_ship'', ''tanker'', ''ferry''] \<and> route_type feat = ''safe''"
    with ship show "predict model feat =
        Inr \<lparr>fuel_l = py_mul fuel (float_lit (12 / 10)), energy_kwh = None,
             co2_kg = py_mul co2 (float_lit (12 / 10))\<rparr>"
      by (simp add: ship_adjust_def)
  next
    assume "vehicle feat \<in> set [''cargo_ship'', ''tanker'', ''ferry'']
        \<and> route_type feat \<notin> set [''eco'', ''safe'']"
    with ship show "predict model feat = Inr \<lparr>fuel_l = fuel, energy_kwh = None, co2_kg = co2\<rparr>"
      by (simp add: ship_adjust_def)
  next
    assume "vehicle feat \<notin> set [''cargo_ship'', ''tanker'', ''ferry'']"
    then show "predict model feat =
      Inr (if energy_mode v = ''electric''
           then \<lparr>fuel_l = float_lit 0,
                 energy_kwh = Some (py_mul (distance_km feat) (float_lit (2 / 10))),
                 co2_kg = co2\<rparr>
           else \<lparr>fuel_l = fuel, energy_kwh = None, co2_kg = co2\<rparr>)"
      by (rule land)
  qed
qed

lemma half_of_10: "py_truediv (Fin 10) (Fin 2) = Inr (Fin 5)"
  using mk_float_at[of 5 50 "5 * 2 ^ 50" False]
  by (simp add: py_truediv_2 rhe_eval)

lemma half_of_8: "py_truediv (Fin 8) (Fin 2) = Inr (Fin 4)"
  using mk_float_at[of 4 50 "2 ^ 52" False]
  by (simp add: py_truediv_2 rhe_eval)

lemma half_of_5: "py_truediv (Fin 5) (Fin 2) = Inr (Fin (5 / 2))"
  using mk_float_at[of "5 / 2" 51 "5 * 2 ^ 50" False]
  by (simp add: py_truediv_2 rhe_eval)

theorem route_post_scaling_witness:
  "resolve_vehicle ''tanker'' =
     Inr \<lparr>weight = 700000, co2_factor = float_lit 10, energy_mode = ''fuel''\<rparr>
   \<and> scale_emissions \<lparr>weight = 700000, co2_factor = float_lit 10, energy_mode = ''fuel''\<rparr>
        (Fin 2, Fin 3) = Inr (Fin 10, Fin 30)
   \<and> ''tanker'' \<in> set [''cargo_ship'', ''tanker'', ''ferry'']
   \<and> predict (\<lambda>X. (Fin 2, Fin 3))
        \<lparr>distance_km = Fin 12, elevation_gain_m = Fin 0, avg_speed_kph = Fin 50, turns = 0,
         humps = 0, weight_kg = Fin 1000, traffic_index = Fin 1, route_type = ''safe'',
         vehicle = ''tanker''\<rparr>
     = Inr \<lparr>fuel_l = Fin 12, energy_kwh = None, co2_kg = Fin 36\<rparr>"
proof -
  have r: "resolve_vehicle ''tanker'' =
      Inr \<lparr>weight = 700000, co2_factor = float_lit 10, energy_mode = ''fuel''\<rparr>"
    by (rule resolve_vehicle_registry) (simp add: VEHICLE_FACTORS_def)
  have "py_mul (Fin 2) (Fin 5) = Fin (of_int (10 * 2 ^ 49) / 2 ^ 49)"
    by (rule py_mul_Fin_pos) (simp_all add: rhe_eval)
  then have m1: "py_mul (Fin 2) (Fin 5) = Fin 10" by simp
  have "py_mul (Fin 3) (Fin 10) = Fin (of_int (30 * 2 ^ 48) / 2 ^ 48)"
    by (rule py_mul_Fin_pos) (simp_all add: rhe_eval)
  then have m2: "py_mul (Fin 3) (Fin 10) = Fin 30" by simp
  have "py_mul (Fin 10) (Fin (5404319552844595 / 2 ^ 52)) = Fin (of_int (12 * 2 ^ 49) / 2 ^ 49)"
    by (rule py_mul_Fin_pos) (simp_all add: rhe_eval)
  then have m3: "py_mul (Fin 10) (Fin (5404319552844595 / 4503599627370496)) = Fin 12" by simp
  have "py_mul (Fin 30) (Fin (5404319552844595 / 2 ^ 52)) = Fin (of_int (36 * 2 ^ 47) / 2 ^ 47)"
    by (rule py_mul_Fin_pos) (simp_all add: rhe_eval)
  then have m4: "py_mul (Fin 30) (Fin (5404319552844595 / 4503599627370496)) = Fin 36" by simp
  have s: "scale_emissions \<lparr>weight = 700000, co2_factor = float_lit 10, energy_mode = ''fuel''\<rparr>
      (Fin 2, Fin 3) = Inr (Fin 10, Fin 30)"
    by (simp add: scale_emissions_def float_lits half_of_10 py_max_def py_gt_def m1 m2)
  show ?thesis
    using route_post_scaling[of
        "\<lparr>distance_km = Fin 12, elevation_gain_m = Fin 0, avg_speed_kph = Fin 50, turns = 0,
          humps = 0, weight_kg = Fin 1000, traffic_index = Fin 1, route_type = ''safe'',
          vehicle = ''tanker''\<rparr>"
        "\<lparr>weight = 700000, co2_factor = float_lit 10, energy_mode = ''fuel''\<rparr>"
        "\<lambda>X. (Fin 2, Fin 3)" "Fin 10" "Fin 30"] r s
    by (simp add: float_lits m3 m4)
qed

lemma float_lit_scenario:
  "float_lit 100 = Fin 100" "float_lit 200 = Fin 200" "float_lit 340 = Fin 340"
  "float_lit 400 = Fin 400" "float_lit 1360 = Fin 1360" "float_lit 1600 = Fin 1600"
  using mk_float_at[of 100 46 "100 * 2 ^ 46" False] mk_float_at[of 200 45 "200 * 2 ^ 45" False]
    mk_float_at[of 340 44 "340 * 2 ^ 44" False] mk_float_at[of 400 44 "400 * 2 ^ 44" False]
    mk_float_at[of 1360 42 "1360 * 2 ^ 42" False] mk_float_at[of 1600 42 "1600 * 2 ^ 42" False]
  by (simp_all add: rhe_eval float_lit_def)

text \<open>
  C4. For vehicle \<open>cargo_ship\<close> on route \<open>eco\<close>, when the regressor returns
  \<open>(100.0, 200.0)\<close>, the scaling step gives fuel \<open>400.0\<close> and CO2 \<open>1600.0\<close>, and the
  result is \<open>fuel_l = 340.0\<close>, \<open>co2_kg = 1360.0\<close>.
\<close>

theorem cargo_ship_eco_scenario:
  assumes "vehicle feat = ''cargo_ship''" "route_type feat = ''eco''"
    and "model (build_X feat \<lparr>weight = 500000, co2_factor = float_lit 8, energy_mode = ''fuel''\<rparr>)
          = (float_lit 100, float_lit 200)"
  shows "scale_emissions \<lparr>weight = 500000, co2_factor = float_lit 8, energy_mode = ''fuel''\<rparr>
           (float_lit 100, float_lit 200) = Inr (float_lit 400, float_lit 1600)
       \<and> predict model feat =
           Inr \<lparr>fuel_l = float_lit 340, energy_kwh = None, co2_kg = float_lit 1360\<rparr>"
proof -
  have r: "resolve_vehicle ''cargo_ship'' =
      Inr \<lparr>weight = 500000, co2_factor = float_lit 8, energy_mode = ''fuel''\<rparr>"
    by (rule resolve_vehicle_registry) (simp add: VEHICLE_FACTORS_def)
  have "py_mul (Fin 200) (Fin 8) = Fin (of_int (1600 * 2 ^ 42) / 2 ^ 42)"
    by (rule py_mul_Fin_pos) (simp_all add: rhe_eval)
  then have m1: "py_mul (Fin 200) (Fin 8) = Fin 1600" by simp
  have "py_mul (Fin 100) (Fin 4) = Fin (of_int (400 * 2 ^ 44) / 2 ^ 44)"
    by (rule py_mul_Fin_pos) (simp_all add: rhe_eval)
  then have m2: "py_mul (Fin 100) (Fin 4) = Fin 400" by simp
  have "py_mul (Fin 400) (Fin (7656119366529843 / 2 ^ 53)) = Fin (of_int (340 * 2 ^ 44) / 2 ^ 44)"
    by (rule py_mul_Fin_pos) (simp_all add: rhe_eval)
  then have m3: "py_mul (Fin 400) (Fin (7656119366529843 / 9007199254740992)) = Fin 340" by simp
  have "py_mul (Fin 1600) (Fin (7656119366529843 / 2 ^ 53)) = Fin (of_int (1360 * 2 ^ 42) / 2 ^ 42)"
    by (rule py_mul_Fin_pos) (simp_all add: rhe_eval)
  then have m4: "py_mul (Fin 1600) (Fin (7656119366529843 / 9007199254740992)) = Fin 1360" by simp
  have s: "scale_emissions \<lparr>weight = 500000, co2_factor = float_lit 8, energy_mode = ''fuel''\<rparr>
      (float_lit 100, float_lit 200) = Inr (float_lit 400, float_lit 1600)"
    by (simp add: scale_emissions_def float_lits float_lit_scenario half_of_8 py_max_def
        py_gt_def m1 m2)
  have "predict model feat =
      adjust \<lparr>weight = 500000, co2_factor = float_lit 8, energy_mode = ''fuel''\<rparr> feat
        (float_lit 100, float_lit 200)"
    using assms(1,3) r by (simp add: predict_def)
  also have "\<dots> = Inr \<lparr>fuel_l = float_lit 340, energy_kwh = None, co2_kg = float_lit 1360\<rparr>"
    using adjust_fuel_mode[OF _ s, of feat] assms(1,2)
    by (simp add: ship_adjust_def float_lits float_lit_scenario m3 m4)
  finally show ?thesis using s by simp
qed

theorem cargo_ship_eco_scenario_witness:
  "predict (\<lambda>X. (float_lit 100, float_lit 200))
     \<lparr>distance_km = float_lit 1000, elevation_gain_m = float_lit 0, avg_speed_kph = float_lit 30,
      turns = 0, humps = 0, weight_kg = float_lit 1000, traffic_index = float_lit 1,
      route_type = ''eco'', vehicle = ''cargo_ship''\<rparr>
   = Inr \<lparr>fuel_l = float_lit 340, energy_kwh = None, co2_kg = float_lit 1360\<rparr>"
  using cargo_ship_eco_scenario[of
      "\<lparr>distance_km = float_lit 1000, elevation_gain_m = float_lit 0,
        avg_speed_kph = float_lit 30, turns = 0, humps = 0, weight_kg = float_lit 1000,
        traffic_index = float_lit 1, route_type = ''eco'', vehicle = ''cargo_ship''\<rparr>"
      "\<lambda>X. (float_lit 100, float_lit 200)"]
  by simp

lemma land_fuel_kept:
  assumes "py_le (co2_factor v) (Fin 2)" "energy_mode v \<noteq> ''electric''"
    "vehicle feat \<notin> set [''cargo_ship'', ''tanker'', ''ferry'']" "is_float x"
  shows "\<exists>r. adjust v feat (x, c) = Inr r \<and> fuel_l r = x"
proof -
  obtain half where h: "py_truediv (co2_factor v) (Fin 2) = Inr half"
    by (simp add: py_truediv_2)
  from fuel_multiplier_floor[OF assms(1) h] have "py_max (Fin 1) half = Fin 1" .
  with h assms(4) have "scale_emissions v (x, c) = Inr (x, py_mul c (co2_factor v))"
    by (simp add: scale_emissions_def float_lits py_mul_one)
  from adjust_fuel_mode[OF assms(2) this] assms(3) show ?thesis
    by (simp add: ship_adjust_def)
qed

lemma ship_fuel_ge:
  assumes "co2_factor v = Fin cf" "py_truediv (Fin cf) (Fin 2) = Inr (Fin h)" "2 \<le> h"
    "energy_mode v \<noteq> ''electric''" "is_float x" "py_le (Fin 0) x"
  shows "\<exists>r. adjust v feat (x, c) = Inr r \<and> py_le x (fuel_l r)"
proof -
  from assms(3) have "py_max (Fin 1) (Fin h) = Fin h"
    by (simp add: py_max_def py_gt_def)
  with assms(1,2) have "scale_emissions v (x, c) = Inr (py_mul x (Fin h), py_mul c (Fin cf))"
    by (simp add: scale_emissions_def float_lits)
  from adjust_fuel_mode[OF assms(4) this]
  have a: "adjust v feat (x, c) =
      Inr \<lparr>fuel_l = fst (ship_adjust feat (py_mul x (Fin h), py_mul c (Fin cf))),
           energy_kwh = None,
           co2_kg = snd (ship_adjust feat (py_mul x (Fin h), py_mul c (Fin cf)))\<rparr>" .
  have 1: "py_le x (py_mul x (Fin h))"
    using assms(3,5,6) by (intro py_mul_ge) simp_all
  have 2: "py_le x (py_mul (py_mul x (Fin h)) (Fin (7656119366529843 / 2 ^ 53)))"
    using assms(3,5,6) by (intro py_mul2_ge) simp_all
  have 3: "py_le x (py_mul (py_mul x (Fin h)) (Fin (5404319552844595 / 2 ^ 52)))"
    using assms(3,5,6) by (intro py_mul2_ge) simp_all
  from 1 2 3 have "py_le x (fst (ship_adjust feat (py_mul x (Fin h), py_mul c (Fin cf))))"
    by (simp add: ship_adjust_def float_lits)
  with a show ?thesis by simp
qed

text \<open>
  C10. For every registry vehicle in fuel mode and every route string, when the regressor's
  fuel value is a non-negative float the final \<open>fuel_l\<close> is at least that raw value.
\<close>

theorem fuel_never_below_raw:
  assumes "(name, v) \<in> set VEHICLE_FACTORS" "energy_mode v = ''fuel''" "vehicle feat = name"
    and "model (build_X feat v) = (fuel_raw, co2_raw)"
    and "is_float fuel_raw" "py_le (float_lit 0) fuel_raw"
  shows "\<exists>r. predict model feat = Inr r \<and> py_le fuel_raw (fuel_l r)"
proof -
  from assms(6) have nn: "py_le (Fin 0) fuel_raw" by (simp add: float_lits)
  from assms(2) have fm: "energy_mode v \<noteq> ''electric''" by simp
  have p: "predict model feat = adjust v feat (fuel_raw, co2_raw)"
    using resolve_vehicle_registry[OF assms(1)] assms(3,4) by (simp add: predict_def)
  have refl: "py_le fuel_raw fuel_raw"
    using nn by (cases fuel_raw) (simp_all add: py_le_def)
  consider "name \<notin> set [''cargo_ship'', ''tanker'', ''ferry'']" "py_le (co2_factor v) (Fin 2)"
    | "co2_factor v = Fin 8" | "co2_factor v = Fin 10" | "co2_factor v = Fin 5"
    using assms(1,2) by (auto simp: VEHICLE_FACTORS_def float_lits py_le_def)
  then have "\<exists>r. adjust v feat (fuel_raw, co2_raw) = Inr r \<and> py_le fuel_raw (fuel_l r)"
  proof cases
    case 1
    with land_fuel_kept[OF 1(2) fm _ assms(5), of feat co2_raw] assms(3) refl
    show ?thesis by auto
  next
    case 2
    from ship_fuel_ge[OF 2 half_of_8 _ fm assms(5) nn] show ?thesis by simp
  next
    case 3
    from ship_fuel_ge[OF 3 half_of_10 _ fm assms(5) nn] show ?thesis by simp
  next
    case 4
    from ship_fuel_ge[OF 4 half_of_5 _ fm assms(5) nn] show ?thesis by simp
  qed
  with p show ?thesis by simp
qed

theorem fuel_never_below_raw_witness:
  "(''ferry'', \<lparr>weight = 100000, co2_factor = float_lit 5, energy_mode = ''fuel''\<rparr>)
     \<in> set VEHICLE_FACTORS
   \<and> is_float (float_lit 7) \<and> py_le (float_lit 0) (float_lit 7)
   \<and> (\<exists>r. predict (\<lambda>X. (float_lit 7, float_lit 3))
             \<lparr>distance_km = float_lit 40, elevation_gain_m = float_lit 0,
              avg_speed_kph = float_lit 30, turns = 0, humps = 0, weight_kg = float_lit 1000,
              traffic_index = float_lit 1, route_type = ''eco'', vehicle = ''ferry''\<rparr> = Inr r
          \<and> py_le (float_lit 7) (fuel_l r))"
proof -
  have m: "(''ferry'', \<lparr>weight = 100000, co2_factor = float_lit 5, energy_mode = ''fuel''\<rparr>)
      \<in> set VEHICLE_FACTORS"
    by (simp add: VEHICLE_FACTORS_def)
  have fl: "is_float (float_lit 7)" by (rule is_float_lit) simp
  have "float_lit 7 = Fin 7"
    using mk_float_at[of 7 50 "7 * 2 ^ 50" False] by (simp add: rhe_eval float_lit_def)
  then have nn: "py_le (float_lit 0) (float_lit 7)"
    by (simp add: float_lits py_le_def)
  from fuel_never_below_raw[OF m _ _ _ fl nn, of
      "\<lparr>distance_km = float_lit 40, elevation_gain_m = float_lit 0,
        avg_speed_kph = float_lit 30, turns = 0, humps = 0, weight_kg = float_lit 1000,
        traffic_index = float_lit 1, route_type = ''eco'', vehicle = ''ferry''\<rparr>"
      "\<lambda>X. (float_lit 7, float_lit 3)" "float_lit 3"] m fl nn
  show ?thesis by simp
qed

end
